theory Spec2Isabelle
  imports Main "HOL-Library.Word"
begin

section \<open>Solidity value types and the transaction context\<close>

type_synonym address = "160 word"
type_synonym bytes32 = "256 word"
type_synonym uint256 = "256 word"
type_synonym uint8 = "8 word"

text \<open>
  The role identifiers of the two contracts. In the source they are \<open>bytes32\<close>
  constants (\<open>keccak256\<close> of the role name, and zero for \<open>DEFAULT_ADMIN_ROLE\<close>);
  only their being distinct matters.
\<close>

datatype role = DEFAULT_ADMIN_ROLE | ADMIN_ROLE | VERIFIER_ROLE | ISSUER_ROLE | PLATFORM_ADMIN_ROLE

text \<open>
  A reverted transaction is the left summand of the result. \<open>Require\<close> carries the
  message of the failing \<open>require\<close>; \<open>Panic\<close> is the checked-arithmetic overflow of
  Solidity 0.8; the remaining constructors are the reverts of the inherited
  \<open>Pausable\<close> and \<open>AccessControl\<close> modifiers. The identity registry imports the
  library by its version 5 paths, where a missing role is the custom error
  \<open>AccessControlUnauthorizedAccount\<close>; the platform registry imports it by a version 4
  path, where a missing role reverts with the message
  \<open>AccessControl: account <account> is missing role <role>\<close>, account and role in
  hexadecimal. \<open>AccessControlMissingRole\<close> stands for that message and carries the
  account and the role themselves.
\<close>

datatype error =
    EnforcedPause
  | ExpectedPause
  | AccessControlUnauthorizedAccount address role
  | AccessControlBadConfirmation
  | AccessControlMissingRole address role
  | Require string
  | Panic

text \<open>\<open>msg.sender\<close> and \<open>block.timestamp\<close> of the call being executed.\<close>

record msg =
  msg_sender :: address
  block_timestamp :: uint256

text \<open>
  \<open>keccak256(abi.encodePacked(_identityHash, msg.sender, block.timestamp))\<close> is a
  primitive of the execution substrate; every operation that derives an identifier takes
  the derivation as a parameter of this type.
\<close>

type_synonym did_hash = "bytes32 \<Rightarrow> address \<Rightarrow> uint256 \<Rightarrow> bytes32"

section \<open>GlobalIdentityRegistry: data\<close>

record Identity =
  identityHash :: bytes32
  owner :: address
  createdAt :: uint256
  lastUpdated :: uint256
  isActive :: bool
  isRevoked :: bool
  ipfsHash :: string
  verificationLevel :: uint256

record Verification =
  verifier :: address
  timestamp :: uint256
  verificationType :: uint8
  proofHash :: bytes32
  isValid :: bool

text \<open>
  The storage of the contract. A Solidity mapping is total, every key holding the zero
  value until written, so each mapping is a HOL function. \<open>paused\<close> and \<open>roles\<close> are the
  storage of the inherited \<open>Pausable\<close> and \<open>AccessControl\<close>.
\<close>

record registry =
  identities :: "bytes32 \<Rightarrow> Identity"
  addressToIdentity :: "address \<Rightarrow> bytes32"
  verifications :: "bytes32 \<Rightarrow> Verification list"
  identityHashExists :: "bytes32 \<Rightarrow> bool"
  guardians :: "bytes32 \<Rightarrow> address list"
  recoveryApprovals :: "bytes32 \<Rightarrow> address \<Rightarrow> bool"
  pendingRecoveryAddress :: "bytes32 \<Rightarrow> address"
  recoveryApprovalCount :: "bytes32 \<Rightarrow> uint256"
  totalIdentities :: uint256
  totalVerifications :: uint256
  paused :: bool
  roles :: "role \<Rightarrow> address \<Rightarrow> bool"

definition zeroIdentity :: Identity where
  "zeroIdentity = \<lparr> identityHash = 0, owner = 0, createdAt = 0, lastUpdated = 0,
     isActive = False, isRevoked = False, ipfsHash = [], verificationLevel = 0 \<rparr>"

text \<open>The constructor: the deployer receives both administrator roles.\<close>

definition constructor :: "address \<Rightarrow> registry" where
  "constructor deployer = \<lparr>
     identities = (\<lambda>_. zeroIdentity),
     addressToIdentity = (\<lambda>_. 0),
     verifications = (\<lambda>_. []),
     identityHashExists = (\<lambda>_. False),
     guardians = (\<lambda>_. []),
     recoveryApprovals = (\<lambda>_ _. False),
     pendingRecoveryAddress = (\<lambda>_. 0),
     recoveryApprovalCount = (\<lambda>_. 0),
     totalIdentities = 0,
     totalVerifications = 0,
     paused = False,
     roles = (\<lambda>r a. (r = DEFAULT_ADMIN_ROLE \<or> r = ADMIN_ROLE) \<and> a = deployer) \<rparr>"

definition hasRole :: "registry \<Rightarrow> role \<Rightarrow> address \<Rightarrow> bool" where
  "hasRole s r a = roles s r a"

section \<open>GlobalIdentityRegistry: operations\<close>

text \<open>
  Each external function takes the call context and the storage and returns either the
  revert reason or the new storage (with the return value, where there is one). The
  modifiers come first, in the order of the function header; \<open>nonReentrant\<close> never
  fires because no function calls out of the contract.
\<close>

definition createIdentity ::
  "did_hash \<Rightarrow> msg \<Rightarrow> bytes32 \<Rightarrow> string \<Rightarrow> registry \<Rightarrow> error + (bytes32 \<times> registry)" where
  "createIdentity kec m h ipfs s =
     (if paused s then Inl EnforcedPause
      else if identityHashExists s h then Inl (Require ''Identity already exists'')
      else if addressToIdentity s (msg_sender m) \<noteq> 0
        then Inl (Require ''Address already has identity'')
      else
        let did = kec h (msg_sender m) (block_timestamp m);
            s1 = s\<lparr> identities := (identities s)(did := \<lparr>
                       identityHash = h, owner = msg_sender m,
                       createdAt = block_timestamp m, lastUpdated = block_timestamp m,
                       isActive = True, isRevoked = False, ipfsHash = ipfs,
                       verificationLevel = 0 \<rparr>),
                     identityHashExists := (identityHashExists s)(h := True),
                     addressToIdentity := (addressToIdentity s)(msg_sender m := did) \<rparr>
        in if totalIdentities s1 + 1 = 0 then Inl Panic
           else Inr (did, s1\<lparr> totalIdentities := totalIdentities s1 + 1 \<rparr>))"

definition updateIdentity :: "msg \<Rightarrow> bytes32 \<Rightarrow> string \<Rightarrow> registry \<Rightarrow> error + registry" where
  "updateIdentity m did newIpfs s =
     (if paused s then Inl EnforcedPause
      else if owner (identities s did) \<noteq> msg_sender m then Inl (Require ''Not identity owner'')
      else if \<not> isActive (identities s did) then Inl (Require ''Identity not active'')
      else if isRevoked (identities s did) then Inl (Require ''Identity revoked'')
      else Inr (s\<lparr> identities := (identities s)(did :=
                  (identities s did)\<lparr> ipfsHash := newIpfs, lastUpdated := block_timestamp m \<rparr>) \<rparr>))"

definition addVerification ::
  "msg \<Rightarrow> bytes32 \<Rightarrow> uint8 \<Rightarrow> bytes32 \<Rightarrow> registry \<Rightarrow> error + registry" where
  "addVerification m did vtype proof s =
     (if paused s then Inl EnforcedPause
      else if \<not> hasRole s VERIFIER_ROLE (msg_sender m)
        then Inl (AccessControlUnauthorizedAccount (msg_sender m) VERIFIER_ROLE)
      else if \<not> isActive (identities s did) then Inl (Require ''Identity not active'')
      else if isRevoked (identities s did) then Inl (Require ''Identity revoked'')
      else if \<not> (1 \<le> vtype \<and> vtype \<le> 4) then Inl (Require ''Invalid verification type'')
      else
        let s1 = s\<lparr> verifications := (verifications s)(did := verifications s did @ [\<lparr>
                       verifier = msg_sender m, timestamp = block_timestamp m,
                       verificationType = vtype, proofHash = proof, isValid = True \<rparr>]) \<rparr>;
            s2 = (if verificationLevel (identities s1 did) < ucast vtype
                  then s1\<lparr> identities := (identities s1)(did :=
                         (identities s1 did)\<lparr> verificationLevel := ucast vtype \<rparr>) \<rparr>
                  else s1)
        in if totalVerifications s2 + 1 = 0 then Inl Panic
           else Inr (s2\<lparr> totalVerifications := totalVerifications s2 + 1 \<rparr>))"

definition revokeVerification :: "msg \<Rightarrow> bytes32 \<Rightarrow> uint256 \<Rightarrow> registry \<Rightarrow> error + registry" where
  "revokeVerification m did idx s =
     (if \<not> hasRole s VERIFIER_ROLE (msg_sender m)
        then Inl (AccessControlUnauthorizedAccount (msg_sender m) VERIFIER_ROLE)
      else if \<not> unat idx < length (verifications s did) then Inl (Require ''Invalid index'')
      else if verifier (verifications s did ! unat idx) \<noteq> msg_sender m
        then Inl (Require ''Not verification owner'')
      else Inr (s\<lparr> verifications := (verifications s)(did :=
                  (verifications s did)[unat idx :=
                     (verifications s did ! unat idx)\<lparr> isValid := False \<rparr>]) \<rparr>))"

definition revokeIdentity :: "msg \<Rightarrow> bytes32 \<Rightarrow> registry \<Rightarrow> error + registry" where
  "revokeIdentity m did s =
     (if \<not> (owner (identities s did) = msg_sender m \<or> hasRole s ADMIN_ROLE (msg_sender m))
        then Inl (Require ''Not authorized'')
      else if isRevoked (identities s did) then Inl (Require ''Already revoked'')
      else Inr (s\<lparr> identities := (identities s)(did :=
                  (identities s did)\<lparr> isRevoked := True, isActive := False,
                                       lastUpdated := block_timestamp m \<rparr>) \<rparr>))"

definition addGuardian :: "msg \<Rightarrow> bytes32 \<Rightarrow> address \<Rightarrow> registry \<Rightarrow> error + registry" where
  "addGuardian m did guardian s =
     (if owner (identities s did) \<noteq> msg_sender m then Inl (Require ''Not identity owner'')
      else if guardian = 0 then Inl (Require ''Invalid guardian address'')
      else if guardian = msg_sender m then Inl (Require ''Cannot be self'')
      else Inr (s\<lparr> guardians := (guardians s)(did := guardians s did @ [guardian]) \<rparr>))"

text \<open>The linear search of \<open>_isGuardian\<close>, returning at the first match.\<close>

fun isGuardian_loop :: "address list \<Rightarrow> address \<Rightarrow> bool" where
  "isGuardian_loop [] a = False"
| "isGuardian_loop (g # gs) a = (if g = a then True else isGuardian_loop gs a)"

definition isGuardian :: "registry \<Rightarrow> bytes32 \<Rightarrow> address \<Rightarrow> bool" where
  "isGuardian s did a = isGuardian_loop (guardians s did) a"

definition initiateRecovery :: "msg \<Rightarrow> bytes32 \<Rightarrow> address \<Rightarrow> registry \<Rightarrow> error + registry" where
  "initiateRecovery m did newOwner s =
     (if \<not> isGuardian s did (msg_sender m) then Inl (Require ''Not a guardian'')
      else if newOwner = 0 then Inl (Require ''Invalid new owner'')
      else if pendingRecoveryAddress s did \<noteq> 0 then Inl (Require ''Recovery already pending'')
      else Inr (s\<lparr> pendingRecoveryAddress := (pendingRecoveryAddress s)(did := newOwner),
                   recoveryApprovals := (recoveryApprovals s)(did :=
                      (recoveryApprovals s did)(msg_sender m := True)),
                   recoveryApprovalCount := (recoveryApprovalCount s)(did := 1) \<rparr>))"

text \<open>The loop of \<open>_executeRecovery\<close> that deletes the approval flag of every guardian.\<close>

fun clearApprovals :: "address list \<Rightarrow> (address \<Rightarrow> bool) \<Rightarrow> (address \<Rightarrow> bool)" where
  "clearApprovals [] ap = ap"
| "clearApprovals (g # gs) ap = clearApprovals gs (ap(g := False))"

definition executeRecovery :: "msg \<Rightarrow> bytes32 \<Rightarrow> registry \<Rightarrow> registry" where
  "executeRecovery m did s =
     (let oldOwner = owner (identities s did);
          newOwner = pendingRecoveryAddress s did
      in s\<lparr> identities := (identities s)(did :=
               (identities s did)\<lparr> owner := newOwner, lastUpdated := block_timestamp m \<rparr>),
            addressToIdentity := ((addressToIdentity s)(oldOwner := 0))(newOwner := did),
            pendingRecoveryAddress := (pendingRecoveryAddress s)(did := 0),
            recoveryApprovalCount := (recoveryApprovalCount s)(did := 0),
            recoveryApprovals := (recoveryApprovals s)(did :=
               clearApprovals (guardians s did) (recoveryApprovals s did)) \<rparr>)"

text \<open>
  \<open>requiredApprovals\<close> is \<open>guardians[_did].length / 2 + 1\<close>, read from the guardian
  array as it is when the approval arrives. An array length is far below \<open>2 ^ 256\<close>, so
  it is a natural number here and the counter is read with \<open>unat\<close>.
\<close>

definition requiredApprovals :: "registry \<Rightarrow> bytes32 \<Rightarrow> nat" where
  "requiredApprovals s did = length (guardians s did) div 2 + 1"

definition approveRecovery :: "msg \<Rightarrow> bytes32 \<Rightarrow> registry \<Rightarrow> error + registry" where
  "approveRecovery m did s =
     (if \<not> isGuardian s did (msg_sender m) then Inl (Require ''Not a guardian'')
      else if pendingRecoveryAddress s did = 0 then Inl (Require ''No pending recovery'')
      else if recoveryApprovals s did (msg_sender m) then Inl (Require ''Already approved'')
      else if recoveryApprovalCount s did + 1 = 0 then Inl Panic
      else
        let s1 = s\<lparr> recoveryApprovals := (recoveryApprovals s)(did :=
                       (recoveryApprovals s did)(msg_sender m := True)),
                     recoveryApprovalCount := (recoveryApprovalCount s)(did :=
                       recoveryApprovalCount s did + 1) \<rparr>
        in if requiredApprovals s1 did \<le> unat (recoveryApprovalCount s1 did)
           then Inr (executeRecovery m did s1)
           else Inr s1)"

definition verifyOwnership :: "registry \<Rightarrow> bytes32 \<Rightarrow> address \<Rightarrow> bool" where
  "verifyOwnership s did a =
     (owner (identities s did) = a \<and> isActive (identities s did) \<and> \<not> isRevoked (identities s did))"

definition getIdentity ::
  "registry \<Rightarrow> bytes32
     \<Rightarrow> address \<times> uint256 \<times> uint256 \<times> bool \<times> bool \<times> string \<times> uint256" where
  "getIdentity s did =
     (let identity = identities s did
      in (owner identity, createdAt identity, lastUpdated identity, isActive identity,
          isRevoked identity, ipfsHash identity, verificationLevel identity))"

definition getVerificationCount :: "registry \<Rightarrow> bytes32 \<Rightarrow> nat" where
  "getVerificationCount s did = length (verifications s did)"

definition getVerification :: "registry \<Rightarrow> bytes32 \<Rightarrow> uint256 \<Rightarrow> error + Verification" where
  "getVerification s did idx =
     (if \<not> unat idx < length (verifications s did) then Inl (Require ''Invalid index'')
      else Inr (verifications s did ! unat idx))"

definition getGuardians :: "registry \<Rightarrow> bytes32 \<Rightarrow> address list" where
  "getGuardians s did = guardians s did"

text \<open>
  \<open>pause\<close> and \<open>unpause\<close> of the contract, and the role management inherited from
  \<open>AccessControl\<close> (every role is administered by \<open>DEFAULT_ADMIN_ROLE\<close>).
\<close>

definition pause :: "msg \<Rightarrow> registry \<Rightarrow> error + registry" where
  "pause m s =
     (if \<not> hasRole s ADMIN_ROLE (msg_sender m)
        then Inl (AccessControlUnauthorizedAccount (msg_sender m) ADMIN_ROLE)
      else if paused s then Inl EnforcedPause
      else Inr (s\<lparr> paused := True \<rparr>))"

definition unpause :: "msg \<Rightarrow> registry \<Rightarrow> error + registry" where
  "unpause m s =
     (if \<not> hasRole s ADMIN_ROLE (msg_sender m)
        then Inl (AccessControlUnauthorizedAccount (msg_sender m) ADMIN_ROLE)
      else if \<not> paused s then Inl ExpectedPause
      else Inr (s\<lparr> paused := False \<rparr>))"

definition grantRole :: "msg \<Rightarrow> role \<Rightarrow> address \<Rightarrow> registry \<Rightarrow> error + registry" where
  "grantRole m r a s =
     (if \<not> hasRole s DEFAULT_ADMIN_ROLE (msg_sender m)
        then Inl (AccessControlUnauthorizedAccount (msg_sender m) DEFAULT_ADMIN_ROLE)
      else Inr (s\<lparr> roles := (roles s)(r := (roles s r)(a := True)) \<rparr>))"

definition revokeRole :: "msg \<Rightarrow> role \<Rightarrow> address \<Rightarrow> registry \<Rightarrow> error + registry" where
  "revokeRole m r a s =
     (if \<not> hasRole s DEFAULT_ADMIN_ROLE (msg_sender m)
        then Inl (AccessControlUnauthorizedAccount (msg_sender m) DEFAULT_ADMIN_ROLE)
      else Inr (s\<lparr> roles := (roles s)(r := (roles s r)(a := False)) \<rparr>))"

definition renounceRole :: "msg \<Rightarrow> role \<Rightarrow> address \<Rightarrow> registry \<Rightarrow> error + registry" where
  "renounceRole m r confirmation s =
     (if confirmation \<noteq> msg_sender m then Inl AccessControlBadConfirmation
      else Inr (s\<lparr> roles := (roles s)(r := (roles s r)(msg_sender m := False)) \<rparr>))"

section \<open>PlatformVerificationRegistry: data\<close>

text \<open>
  The second contract has its own storage. Where a field or function of it has the name
  of one of \<open>GlobalIdentityRegistry\<close>, the name is qualified here: \<open>isActive\<close> of a
  platform is \<open>platformIsActive\<close> and of a verification record \<open>verificationIsActive\<close>,
  the mapping \<open>verifications\<close> is \<open>platformVerifications\<close>, the counter
  \<open>totalVerifications\<close> of a platform is \<open>platformTotalVerifications\<close>, and the
  functions \<open>revokeVerification\<close> and \<open>getVerification\<close> are
  \<open>revokePlatformVerification\<close> and \<open>getPlatformVerification\<close>.
\<close>

datatype PlatformType = SocialMedia | Financial | Healthcare | Government | Education | Other

record Platform =
  name :: string
  domain :: string
  adminAddress :: address
  platformIsActive :: bool
  registeredAt :: uint256
  platformTotalVerifications :: uint256
  platformType :: PlatformType

record PlatformVerification =
  identityDID :: bytes32
  platformId :: bytes32
  platformUserId :: string
  verifiedAt :: uint256
  expiresAt :: uint256
  verificationIsActive :: bool
  trustScore :: uint8
  attestationHash :: bytes32

record platformRegistry =
  platforms :: "bytes32 \<Rightarrow> Platform"
  domainToPlatform :: "string \<Rightarrow> bytes32"
  platformVerifications :: "bytes32 \<Rightarrow> bytes32 \<Rightarrow> PlatformVerification"
  platformVerifiedIdentities :: "bytes32 \<Rightarrow> bytes32 list"
  platformUserToIdentity :: "bytes32 \<Rightarrow> string \<Rightarrow> bytes32"
  totalPlatforms :: uint256
  totalPlatformVerifications :: uint256
  platformRoles :: "role \<Rightarrow> address \<Rightarrow> bool"

text \<open>\<open>keccak256(abi.encodePacked(_name, _domain, block.timestamp))\<close>, a parameter.\<close>

type_synonym platform_hash = "string \<Rightarrow> string \<Rightarrow> uint256 \<Rightarrow> bytes32"

definition zeroPlatform :: Platform where
  "zeroPlatform = \<lparr> name = [], domain = [], adminAddress = 0, platformIsActive = False,
     registeredAt = 0, platformTotalVerifications = 0, platformType = SocialMedia \<rparr>"

definition zeroPlatformVerification :: PlatformVerification where
  "zeroPlatformVerification = \<lparr> identityDID = 0, platformId = 0, platformUserId = [],
     verifiedAt = 0, expiresAt = 0, verificationIsActive = False, trustScore = 0,
     attestationHash = 0 \<rparr>"

definition platformConstructor :: "address \<Rightarrow> platformRegistry" where
  "platformConstructor deployer = \<lparr>
     platforms = (\<lambda>_. zeroPlatform),
     domainToPlatform = (\<lambda>_. 0),
     platformVerifications = (\<lambda>_ _. zeroPlatformVerification),
     platformVerifiedIdentities = (\<lambda>_. []),
     platformUserToIdentity = (\<lambda>_ _. 0),
     totalPlatforms = 0,
     totalPlatformVerifications = 0,
     platformRoles = (\<lambda>r a. (r = DEFAULT_ADMIN_ROLE \<or> r = PLATFORM_ADMIN_ROLE) \<and> a = deployer) \<rparr>"

definition platformHasRole :: "platformRegistry \<Rightarrow> role \<Rightarrow> address \<Rightarrow> bool" where
  "platformHasRole s r a = platformRoles s r a"

section \<open>PlatformVerificationRegistry: operations\<close>

definition registerPlatform ::
  "platform_hash \<Rightarrow> msg \<Rightarrow> string \<Rightarrow> string \<Rightarrow> PlatformType \<Rightarrow> platformRegistry
     \<Rightarrow> error + (bytes32 \<times> platformRegistry)" where
  "registerPlatform kec m nm dmn ptype s =
     (if \<not> platformHasRole s PLATFORM_ADMIN_ROLE (msg_sender m)
        then Inl (AccessControlMissingRole (msg_sender m) PLATFORM_ADMIN_ROLE)
      else if \<not> 0 < length nm then Inl (Require ''Name cannot be empty'')
      else if \<not> 0 < length dmn then Inl (Require ''Domain cannot be empty'')
      else if domainToPlatform s dmn \<noteq> 0 then Inl (Require ''Domain already registered'')
      else
        let pid = kec nm dmn (block_timestamp m);
            s1 = s\<lparr> platforms := (platforms s)(pid := \<lparr>
                       name = nm, domain = dmn, adminAddress = msg_sender m,
                       platformIsActive = True, registeredAt = block_timestamp m,
                       platformTotalVerifications = 0, platformType = ptype \<rparr>),
                     domainToPlatform := (domainToPlatform s)(dmn := pid) \<rparr>
        in if totalPlatforms s1 + 1 = 0 then Inl Panic
           else Inr (pid, s1\<lparr> totalPlatforms := totalPlatforms s1 + 1 \<rparr>))"

text \<open>
  \<open>block.timestamp + (_expirationDays * 1 days)\<close> in checked arithmetic: either
  operation reverts when its result does not fit in 256 bits.
\<close>

definition expiryOf :: "uint256 \<Rightarrow> uint256 \<Rightarrow> error + uint256" where
  "expiryOf now expirationDays =
     (if 0 < expirationDays then
        (if \<not> unat expirationDays * 86400 < 2 ^ 256 then Inl Panic
         else if \<not> unat now + unat (expirationDays * 86400) < 2 ^ 256 then Inl Panic
         else Inr (now + expirationDays * 86400))
      else Inr 0)"

definition createVerification ::
  "msg \<Rightarrow> bytes32 \<Rightarrow> bytes32 \<Rightarrow> string \<Rightarrow> uint256 \<Rightarrow> bytes32 \<Rightarrow> platformRegistry
     \<Rightarrow> error + platformRegistry" where
  "createVerification m did pid userId expirationDays attestation s =
     (if \<not> platformIsActive (platforms s pid) then Inl (Require ''Platform not active'')
      else if \<not> (adminAddress (platforms s pid) = msg_sender m
                 \<or> platformHasRole s PLATFORM_ADMIN_ROLE (msg_sender m))
        then Inl (Require ''Not authorized'')
      else if \<not> 0 < length userId then Inl (Require ''Platform user ID required'')
      else if did = 0 then Inl (Require ''Invalid identity DID'')
      else if verificationIsActive (platformVerifications s did pid)
        then Inl (Require ''Verification already exists'')
      else
        (case expiryOf (block_timestamp m) expirationDays of
           Inl e \<Rightarrow> Inl e
         | Inr expires \<Rightarrow>
            let s1 = s\<lparr> platformVerifications := (platformVerifications s)(did :=
                           (platformVerifications s did)(pid := \<lparr>
                              identityDID = did, platformId = pid, platformUserId = userId,
                              verifiedAt = block_timestamp m, expiresAt = expires,
                              verificationIsActive = True, trustScore = 50,
                              attestationHash = attestation \<rparr>)),
                         platformVerifiedIdentities := (platformVerifiedIdentities s)(pid :=
                           platformVerifiedIdentities s pid @ [did]),
                         platformUserToIdentity := (platformUserToIdentity s)(pid :=
                           (platformUserToIdentity s pid)(userId := did)) \<rparr>
            in if platformTotalVerifications (platforms s1 pid) + 1 = 0 then Inl Panic
               else
                 let s2 = s1\<lparr> platforms := (platforms s1)(pid := (platforms s1 pid)\<lparr>
                            platformTotalVerifications :=
                              platformTotalVerifications (platforms s1 pid) + 1 \<rparr>) \<rparr>
                 in if totalPlatformVerifications s2 + 1 = 0 then Inl Panic
                    else Inr (s2\<lparr> totalPlatformVerifications :=
                                     totalPlatformVerifications s2 + 1 \<rparr>)))"

definition revokePlatformVerification ::
  "msg \<Rightarrow> bytes32 \<Rightarrow> bytes32 \<Rightarrow> platformRegistry \<Rightarrow> error + platformRegistry" where
  "revokePlatformVerification m did pid s =
     (if \<not> (adminAddress (platforms s pid) = msg_sender m
            \<or> platformHasRole s PLATFORM_ADMIN_ROLE (msg_sender m))
        then Inl (Require ''Not authorized'')
      else if \<not> verificationIsActive (platformVerifications s did pid)
        then Inl (Require ''Verification not active'')
      else Inr (s\<lparr> platformVerifications := (platformVerifications s)(did :=
                  (platformVerifications s did)(pid :=
                     (platformVerifications s did pid)\<lparr> verificationIsActive := False \<rparr>)) \<rparr>))"

definition updateTrustScore ::
  "msg \<Rightarrow> bytes32 \<Rightarrow> bytes32 \<Rightarrow> uint8 \<Rightarrow> platformRegistry \<Rightarrow> error + platformRegistry" where
  "updateTrustScore m did pid newScore s =
     (if \<not> (adminAddress (platforms s pid) = msg_sender m
            \<or> platformHasRole s PLATFORM_ADMIN_ROLE (msg_sender m))
        then Inl (Require ''Not authorized'')
      else if \<not> newScore \<le> 100 then Inl (Require ''Score must be 0-100'')
      else if \<not> verificationIsActive (platformVerifications s did pid)
        then Inl (Require ''Verification not active'')
      else Inr (s\<lparr> platformVerifications := (platformVerifications s)(did :=
                  (platformVerifications s did)(pid :=
                     (platformVerifications s did pid)\<lparr> trustScore := newScore \<rparr>)) \<rparr>))"

definition isVerificationValid :: "msg \<Rightarrow> platformRegistry \<Rightarrow> bytes32 \<Rightarrow> bytes32 \<Rightarrow> bool" where
  "isVerificationValid m s did pid =
     (let verification = platformVerifications s did pid
      in if \<not> verificationIsActive verification then False
         else if 0 < expiresAt verification \<and> expiresAt verification < block_timestamp m
           then False
         else True)"

definition getIdentityByPlatformUser :: "platformRegistry \<Rightarrow> bytes32 \<Rightarrow> string \<Rightarrow> bytes32" where
  "getIdentityByPlatformUser s pid userId = platformUserToIdentity s pid userId"

definition getPlatformVerification ::
  "platformRegistry \<Rightarrow> bytes32 \<Rightarrow> bytes32 \<Rightarrow> PlatformVerification" where
  "getPlatformVerification s did pid = platformVerifications s did pid"

definition getPlatform :: "platformRegistry \<Rightarrow> bytes32 \<Rightarrow> Platform" where
  "getPlatform s pid = platforms s pid"

definition getPlatformVerifiedIdentities :: "platformRegistry \<Rightarrow> bytes32 \<Rightarrow> bytes32 list" where
  "getPlatformVerifiedIdentities s pid = platformVerifiedIdentities s pid"

definition deactivatePlatform :: "msg \<Rightarrow> bytes32 \<Rightarrow> platformRegistry \<Rightarrow> error + platformRegistry" where
  "deactivatePlatform m pid s =
     (if \<not> (adminAddress (platforms s pid) = msg_sender m
            \<or> platformHasRole s PLATFORM_ADMIN_ROLE (msg_sender m))
        then Inl (Require ''Not authorized'')
      else Inr (s\<lparr> platforms := (platforms s)(pid :=
                  (platforms s pid)\<lparr> platformIsActive := False \<rparr>) \<rparr>))"

text \<open>
  The loop of \<open>batchVerificationCheck\<close>: \<open>results\<close> is allocated with one \<open>false\<close> per
  input and slot \<open>i\<close> is written in iteration \<open>i\<close>.
\<close>

function batchVerificationCheck_loop ::
  "msg \<Rightarrow> platformRegistry \<Rightarrow> bytes32 list \<Rightarrow> bytes32 \<Rightarrow> nat \<Rightarrow> bool list \<Rightarrow> bool list" where
  "batchVerificationCheck_loop m s dids pid i results =
     (if i < length dids then
        let verification = platformVerifications s (dids ! i) pid;
            isValid0 = verificationIsActive verification;
            isValid = (if 0 < expiresAt verification \<and> expiresAt verification < block_timestamp m
                       then False else isValid0)
        in batchVerificationCheck_loop m s dids pid (Suc i) (results[i := isValid])
      else results)"
  by pat_completeness auto
termination
  by (relation "measure (\<lambda>(m, s, dids, pid, i, results). length dids - i)") auto

declare batchVerificationCheck_loop.simps [simp del]

definition batchVerificationCheck ::
  "msg \<Rightarrow> platformRegistry \<Rightarrow> bytes32 list \<Rightarrow> bytes32 \<Rightarrow> bool list" where
  "batchVerificationCheck m s dids pid =
     batchVerificationCheck_loop m s dids pid 0 (replicate (length dids) False)"

definition platformGrantRole ::
  "msg \<Rightarrow> role \<Rightarrow> address \<Rightarrow> platformRegistry \<Rightarrow> error + platformRegistry" where
  "platformGrantRole m r a s =
     (if \<not> platformHasRole s DEFAULT_ADMIN_ROLE (msg_sender m)
        then Inl (AccessControlMissingRole (msg_sender m) DEFAULT_ADMIN_ROLE)
      else Inr (s\<lparr> platformRoles := (platformRoles s)(r := (platformRoles s r)(a := True)) \<rparr>))"

definition platformRevokeRole ::
  "msg \<Rightarrow> role \<Rightarrow> address \<Rightarrow> platformRegistry \<Rightarrow> error + platformRegistry" where
  "platformRevokeRole m r a s =
     (if \<not> platformHasRole s DEFAULT_ADMIN_ROLE (msg_sender m)
        then Inl (AccessControlMissingRole (msg_sender m) DEFAULT_ADMIN_ROLE)
      else Inr (s\<lparr> platformRoles := (platformRoles s)(r := (platformRoles s r)(a := False)) \<rparr>))"

definition platformRenounceRole ::
  "msg \<Rightarrow> role \<Rightarrow> address \<Rightarrow> platformRegistry \<Rightarrow> error + platformRegistry" where
  "platformRenounceRole m r confirmation s =
     (if confirmation \<noteq> msg_sender m
        then Inl (Require ''AccessControl: can only renounce roles for self'')
      else Inr (s\<lparr> platformRoles :=
                  (platformRoles s)(r := (platformRoles s r)(msg_sender m := False)) \<rparr>))"

section \<open>Transactions and executions\<close>

text \<open>
  The state-changing entry points of each contract as a datatype of calls. A transaction
  is a call with its context; a reverted transaction leaves the storage as it was, and
  an execution applies transactions one after the other, starting from the constructor.
\<close>

datatype call =
    CreateIdentity bytes32 string
  | UpdateIdentity bytes32 string
  | AddVerification bytes32 uint8 bytes32
  | RevokeVerification bytes32 uint256
  | RevokeIdentity bytes32
  | AddGuardian bytes32 address
  | InitiateRecovery bytes32 address
  | ApproveRecovery bytes32
  | PauseCall
  | UnpauseCall
  | GrantRole role address
  | RevokeRole role address
  | RenounceRole role address

fun exec :: "did_hash \<Rightarrow> msg \<Rightarrow> call \<Rightarrow> registry \<Rightarrow> error + registry" where
  "exec kec m (CreateIdentity h ipfs) s = map_sum id snd (createIdentity kec m h ipfs s)"
| "exec kec m (UpdateIdentity did ipfs) s = updateIdentity m did ipfs s"
| "exec kec m (AddVerification did vtype proof) s = addVerification m did vtype proof s"
| "exec kec m (RevokeVerification did idx) s = revokeVerification m did idx s"
| "exec kec m (RevokeIdentity did) s = revokeIdentity m did s"
| "exec kec m (AddGuardian did g) s = addGuardian m did g s"
| "exec kec m (InitiateRecovery did newOwner) s = initiateRecovery m did newOwner s"
| "exec kec m (ApproveRecovery did) s = approveRecovery m did s"
| "exec kec m PauseCall s = pause m s"
| "exec kec m UnpauseCall s = unpause m s"
| "exec kec m (GrantRole r a) s = grantRole m r a s"
| "exec kec m (RevokeRole r a) s = revokeRole m r a s"
| "exec kec m (RenounceRole r a) s = renounceRole m r a s"

fun apply_tx :: "did_hash \<Rightarrow> registry \<Rightarrow> msg \<times> call \<Rightarrow> registry" where
  "apply_tx kec s (m, c) = (case exec kec m c s of Inl e \<Rightarrow> s | Inr s' \<Rightarrow> s')"

fun run :: "did_hash \<Rightarrow> (msg \<times> call) list \<Rightarrow> registry \<Rightarrow> registry" where
  "run kec [] s = s"
| "run kec (tx # txs) s = run kec txs (apply_tx kec s tx)"

text \<open>The identifiers returned by the successful \<open>createIdentity\<close> calls of an execution.\<close>

fun createdDid :: "did_hash \<Rightarrow> registry \<Rightarrow> msg \<times> call \<Rightarrow> bytes32 list" where
  "createdDid kec s (m, CreateIdentity h ipfs) =
     (case createIdentity kec m h ipfs s of Inl e \<Rightarrow> [] | Inr (did, s') \<Rightarrow> [did])"
| "createdDid kec s (m, c) = []"

fun createdDids :: "did_hash \<Rightarrow> (msg \<times> call) list \<Rightarrow> registry \<Rightarrow> bytes32 list" where
  "createdDids kec [] s = []"
| "createdDids kec (tx # txs) s = createdDid kec s tx @ createdDids kec txs (apply_tx kec s tx)"

datatype platformCall =
    RegisterPlatform string string PlatformType
  | CreateVerification bytes32 bytes32 string uint256 bytes32
  | RevokePlatformVerification bytes32 bytes32
  | UpdateTrustScore bytes32 bytes32 uint8
  | DeactivatePlatform bytes32
  | PlatformGrantRole role address
  | PlatformRevokeRole role address
  | PlatformRenounceRole role address

fun platformExec ::
  "platform_hash \<Rightarrow> msg \<Rightarrow> platformCall \<Rightarrow> platformRegistry \<Rightarrow> error + platformRegistry" where
  "platformExec kec m (RegisterPlatform nm dmn ptype) s =
     map_sum id snd (registerPlatform kec m nm dmn ptype s)"
| "platformExec kec m (CreateVerification did pid userId days att) s =
     createVerification m did pid userId days att s"
| "platformExec kec m (RevokePlatformVerification did pid) s = revokePlatformVerification m did pid s"
| "platformExec kec m (UpdateTrustScore did pid score) s = updateTrustScore m did pid score s"
| "platformExec kec m (DeactivatePlatform pid) s = deactivatePlatform m pid s"
| "platformExec kec m (PlatformGrantRole r a) s = platformGrantRole m r a s"
| "platformExec kec m (PlatformRevokeRole r a) s = platformRevokeRole m r a s"
| "platformExec kec m (PlatformRenounceRole r a) s = platformRenounceRole m r a s"

fun platformApply ::
  "platform_hash \<Rightarrow> platformRegistry \<Rightarrow> msg \<times> platformCall \<Rightarrow> platformRegistry" where
  "platformApply kec s (m, c) = (case platformExec kec m c s of Inl e \<Rightarrow> s | Inr s' \<Rightarrow> s')"

fun platformRun ::
  "platform_hash \<Rightarrow> (msg \<times> platformCall) list \<Rightarrow> platformRegistry \<Rightarrow> platformRegistry" where
  "platformRun kec [] s = s"
| "platformRun kec (tx # txs) s = platformRun kec txs (platformApply kec s tx)"

text \<open>
  Stand-ins for the two \<open>keccak256\<close> derivations, used only to evaluate concrete
  executions: the identifier of an identity is its identity hash, and the identifier of
  a platform is the length of its domain. No example depends on more than the
  identifiers of the entities it creates being distinct and non-zero.
\<close>

definition exampleDidHash :: did_hash where
  "exampleDidHash h a t = h"

definition examplePlatformHash :: platform_hash where
  "examplePlatformHash nm dmn t = of_nat (length dmn)"

text \<open>A call context.\<close>

definition ctx :: "address \<Rightarrow> uint256 \<Rightarrow> msg" where
  "ctx a t = \<lparr> msg_sender = a, block_timestamp = t \<rparr>"

section \<open>Derived notions used in the properties\<close>

text \<open>
  The number of approvals of a request, read off the approval flags: in a state that
  satisfies \<open>approvalsCounted\<close> the counter of every identity is the number of distinct
  principals whose flag is set, all of them are guardians, and the counter is zero when
  no request is pending.
\<close>

definition approvalsCounted :: "registry \<Rightarrow> bool" where
  "approvalsCounted s \<longleftrightarrow> (\<forall>did.
      card {g. recoveryApprovals s did g} = unat (recoveryApprovalCount s did)
      \<and> {g. recoveryApprovals s did g} \<subseteq> set (guardians s did)
      \<and> (pendingRecoveryAddress s did = 0 \<longrightarrow> recoveryApprovalCount s did = 0))"

text \<open>The greatest \<open>verificationType\<close> of a list of records, 0 for the empty list.\<close>

fun maxVerificationType :: "Verification list \<Rightarrow> uint256" where
  "maxVerificationType [] = 0"
| "maxVerificationType (v # vs) = max (ucast (verificationType v)) (maxVerificationType vs)"

text \<open>
  The level as the specification words it: the maximum \<open>verificationType\<close> over the
  records whose \<open>isValid\<close> flag is true, 0 when there is none.
\<close>

definition spec_verificationLevel :: "Verification list \<Rightarrow> uint256" where
  "spec_verificationLevel vs = maxVerificationType (filter isValid vs)"

text \<open>
  The invariant behind the level of an identity, relative to the set \<open>C\<close> of identifiers
  created so far: the level of every identity is the greatest type among its records,
  and an identifier outside \<open>C\<close> has no record and is not active.
\<close>

definition levelsTracked :: "bytes32 set \<Rightarrow> registry \<Rightarrow> bool" where
  "levelsTracked C s \<longleftrightarrow>
     (\<forall>did. verificationLevel (identities s did) = maxVerificationType (verifications s did))
     \<and> (\<forall>did. did \<notin> C \<longrightarrow> verifications s did = [] \<and> \<not> isActive (identities s did))"

text \<open>
  \<open>transfersAway kec p s tx\<close>: the transaction is an \<open>approveRecovery\<close> that moves an
  identity owned by \<open>p\<close> to another principal. \<open>recoveredFrom\<close>: some transaction of an
  execution does.
\<close>

fun transfersAway :: "did_hash \<Rightarrow> address \<Rightarrow> registry \<Rightarrow> msg \<times> call \<Rightarrow> bool" where
  "transfersAway kec p s (m, ApproveRecovery did) =
     (owner (identities s did) = p
      \<and> owner (identities (apply_tx kec s (m, ApproveRecovery did)) did) \<noteq> p)"
| "transfersAway kec p s (m, c) = False"

fun recoveredFrom :: "did_hash \<Rightarrow> address \<Rightarrow> (msg \<times> call) list \<Rightarrow> registry \<Rightarrow> bool" where
  "recoveredFrom kec p [] s = False"
| "recoveredFrom kec p (tx # txs) s =
     (transfersAway kec p s tx \<or> recoveredFrom kec p txs (apply_tx kec s tx))"

section \<open>Example executions\<close>

text \<open>
  Principals: 1 deploys both contracts, 2 is a verifier, 17 and 18 are users, 33 to 37 are
  guardians. Identity hashes are 161 and 162.
\<close>

definition recoveryTxs :: "(msg \<times> call) list" where
  "recoveryTxs =
     [(ctx 17 100, CreateIdentity 161 ''QmA''),
      (ctx 17 101, AddGuardian 161 33),
      (ctx 17 102, AddGuardian 161 34),
      (ctx 33 103, InitiateRecovery 161 18)]"

text \<open>Identity 161 of principal 17 with guardians 33 and 34; 33 has proposed 18.\<close>

definition recoveryPending :: registry where
  "recoveryPending = run exampleDidHash recoveryTxs (constructor 1)"

definition platformTxs :: "(msg \<times> platformCall) list" where
  "platformTxs =
     [(ctx 1 1000, RegisterPlatform ''Example'' ''example.com'' SocialMedia),
      (ctx 1 1000, CreateVerification 161 11 ''user-1'' 1 9)]"

text \<open>Platform 11 with one verification of identity 161, created at time 1000 for one day.\<close>

definition verifiedOnce :: platformRegistry where
  "verifiedOnce = platformRun examplePlatformHash platformTxs (platformConstructor 1)"

definition quorumTxs :: "(msg \<times> call) list" where
  "quorumTxs =
     [(ctx 17 100, CreateIdentity 161 ''QmA''),
      (ctx 17 101, AddGuardian 161 33),
      (ctx 17 102, AddGuardian 161 34),
      (ctx 17 103, AddGuardian 161 35),
      (ctx 33 104, InitiateRecovery 161 18)]"

text \<open>Identity 161 with guardians 33, 34 and 35; 33 has proposed 18.\<close>

definition quorumPending :: registry where
  "quorumPending = run exampleDidHash quorumTxs (constructor 1)"

text \<open>The same request after the owner has added guardians 36 and 37.\<close>

definition quorumGrown :: registry where
  "quorumGrown =
     run exampleDidHash [(ctx 17 105, AddGuardian 161 36), (ctx 17 106, AddGuardian 161 37)]
       quorumPending"

definition pausedTxs :: "(msg \<times> call) list" where
  "pausedTxs = [(ctx 17 100, CreateIdentity 161 ''QmA''), (ctx 1 101, PauseCall)]"

text \<open>Identity 161 of principal 17; the administrator has paused the contract.\<close>

definition pausedRegistry :: registry where
  "pausedRegistry = run exampleDidHash pausedTxs (constructor 1)"

definition revokedTxs :: "(msg \<times> call) list" where
  "revokedTxs = [(ctx 17 100, CreateIdentity 161 ''QmA''), (ctx 17 101, RevokeIdentity 161)]"

text \<open>Principal 17 has created identity 161 and revoked it.\<close>

definition revokedRegistry :: registry where
  "revokedRegistry = run exampleDidHash revokedTxs (constructor 1)"

definition verificationTxs :: "(msg \<times> call) list" where
  "verificationTxs =
     [(ctx 1 90, GrantRole VERIFIER_ROLE 2),
      (ctx 17 100, CreateIdentity 161 ''QmA''),
      (ctx 2 101, AddVerification 161 3 7)]"

text \<open>Verifier 2 has attested government-id (type 3) for identity 161.\<close>

definition verified :: registry where
  "verified = run exampleDidHash verificationTxs (constructor 1)"

text \<open>The verifier has then revoked that record, the only one.\<close>

definition verificationRevoked :: registry where
  "verificationRevoked = apply_tx exampleDidHash verified (ctx 2 102, RevokeVerification 161 0)"

definition dualOwnerTxs :: "(msg \<times> call) list" where
  "dualOwnerTxs =
     [(ctx 17 100, CreateIdentity 161 ''QmA''),
      (ctx 18 100, CreateIdentity 162 ''QmB''),
      (ctx 17 101, AddGuardian 161 33),
      (ctx 17 102, AddGuardian 161 34),
      (ctx 33 103, InitiateRecovery 161 18),
      (ctx 34 104, ApproveRecovery 161)]"

text \<open>
  Principals 17 and 18 each create an identity; the guardians of 17 then recover identity
  161 to principal 18.
\<close>

definition dualOwner :: registry where
  "dualOwner = run exampleDidHash dualOwnerTxs (constructor 1)"

text \<open>
  After \<open>dualOwnerTxs\<close> the guardians recover identity 161 a second time, to principal
  19, which deletes the binding of principal 18; 18 then revokes its own identity 162.
\<close>

definition unboundOwner :: registry where
  "unboundOwner =
     run exampleDidHash
       [(ctx 33 105, InitiateRecovery 161 19),
        (ctx 34 106, ApproveRecovery 161),
        (ctx 18 107, RevokeIdentity 162)]
       dualOwner"

text \<open>Platform 11 deactivated by its administrator, its verification still in place.\<close>

definition deactivatedOnce :: platformRegistry where
  "deactivatedOnce = platformApply examplePlatformHash verifiedOnce (ctx 1 1500, DeactivatePlatform 11)"

section \<open>Properties\<close>

lemmas registry_defs =
  createIdentity_def updateIdentity_def addVerification_def revokeVerification_def
  revokeIdentity_def addGuardian_def initiateRecovery_def approveRecovery_def
  executeRecovery_def pause_def unpause_def grantRole_def revokeRole_def renounceRole_def
  hasRole_def isGuardian_def requiredApprovals_def constructor_def zeroIdentity_def
  ctx_def exampleDidHash_def

lemmas platform_defs =
  registerPlatform_def createVerification_def revokePlatformVerification_def
  updateTrustScore_def deactivatePlatform_def platformGrantRole_def platformRevokeRole_def
  platformRenounceRole_def platformHasRole_def expiryOf_def platformConstructor_def
  zeroPlatform_def zeroPlatformVerification_def ctx_def examplePlatformHash_def

subsection \<open>The approval counter counts distinct guardians\<close>

lemma unat_inc: "(x :: 'a::len word) + 1 \<noteq> 0 \<Longrightarrow> unat (x + 1) = unat x + 1"
  using unatSuc [of x] by (simp add: add.commute)

lemma run_append: "run kec (txs @ txs') s = run kec txs' (run kec txs s)"
  by (induction txs arbitrary: s) simp_all

lemma isGuardian_loop_set: "isGuardian_loop gs a \<longleftrightarrow> a \<in> set gs"
  by (induction gs) auto

lemma clearApprovals_apply: "clearApprovals gs ap a = (if a \<in> set gs then False else ap a)"
  by (induction gs arbitrary: ap) auto

lemma approvalsCounted_constructor: "approvalsCounted (constructor d)"
  by (simp add: approvalsCounted_def constructor_def)

lemma approvalsCounted_same:
  assumes "approvalsCounted s" and "recoveryApprovals s' = recoveryApprovals s"
    and "recoveryApprovalCount s' = recoveryApprovalCount s"
    and "pendingRecoveryAddress s' = pendingRecoveryAddress s"
    and "\<forall>did. set (guardians s did) \<subseteq> set (guardians s' did)"
  shows "approvalsCounted s'"
  unfolding approvalsCounted_def
proof (intro allI conjI)
  fix did
  show "card {g. recoveryApprovals s' did g} = unat (recoveryApprovalCount s' did)"
    using assms(1) by (simp add: assms(2,3) approvalsCounted_def)
  show "{g. recoveryApprovals s' did g} \<subseteq> set (guardians s' did)"
    using assms(1,5) unfolding approvalsCounted_def assms(2) by blast
  show "pendingRecoveryAddress s' did = 0 \<longrightarrow> recoveryApprovalCount s' did = 0"
    using assms(1) by (simp add: assms(3,4) approvalsCounted_def)
qed

lemma upd_True_set: "{g. g \<noteq> a \<longrightarrow> f g} = insert a {g. f g}"
  by auto

lemma approvalsCounted_initiate:
  assumes "approvalsCounted s" "initiateRecovery m did newOwner s = Inr s'"
  shows "approvalsCounted s'"
proof -
  from assms(2) have g: "msg_sender m \<in> set (guardians s did)" and n: "newOwner \<noteq> 0"
    and p: "pendingRecoveryAddress s did = 0"
    and s': "s' = s\<lparr> pendingRecoveryAddress := (pendingRecoveryAddress s)(did := newOwner),
                   recoveryApprovals := (recoveryApprovals s)(did :=
                      (recoveryApprovals s did)(msg_sender m := True)),
                   recoveryApprovalCount := (recoveryApprovalCount s)(did := 1) \<rparr>"
    by (auto simp: initiateRecovery_def isGuardian_def isGuardian_loop_set split: if_splits)
  from assms(1) p have "card {g. recoveryApprovals s did g} = 0"
    by (simp add: approvalsCounted_def)
  then have e: "{g. recoveryApprovals s did g} = {}" by simp
  show ?thesis
    unfolding approvalsCounted_def
  proof (intro allI)
    fix d
    show "card {g. recoveryApprovals s' d g} = unat (recoveryApprovalCount s' d)
      \<and> {g. recoveryApprovals s' d g} \<subseteq> set (guardians s' d)
      \<and> (pendingRecoveryAddress s' d = 0 \<longrightarrow> recoveryApprovalCount s' d = 0)"
    proof (cases "d = did")
      case True
      then show ?thesis using e g n by (simp add: s' upd_True_set)
    next
      case False
      then show ?thesis using assms(1) by (simp add: s' approvalsCounted_def)
    qed
  qed
qed

lemma approvalsCounted_approve:
  assumes "approvalsCounted s" "approveRecovery m did s = Inr s'"
  shows "approvalsCounted s'"
proof -
  let ?s1 = "s\<lparr> recoveryApprovals := (recoveryApprovals s)(did :=
                       (recoveryApprovals s did)(msg_sender m := True)),
                     recoveryApprovalCount := (recoveryApprovalCount s)(did :=
                       recoveryApprovalCount s did + 1) \<rparr>"
  from assms(2) have g: "msg_sender m \<in> set (guardians s did)"
    and p: "pendingRecoveryAddress s did \<noteq> 0"
    and na: "\<not> recoveryApprovals s did (msg_sender m)"
    and ov: "recoveryApprovalCount s did + 1 \<noteq> 0"
    and s': "s' = (if requiredApprovals ?s1 did \<le> unat (recoveryApprovalCount ?s1 did)
                   then executeRecovery m did ?s1 else ?s1)"
    by (auto simp: approveRecovery_def isGuardian_def isGuardian_loop_set Let_def split: if_splits)
  have c: "card {g. recoveryApprovals s did g} = unat (recoveryApprovalCount s did)"
    and sub: "{g. recoveryApprovals s did g} \<subseteq> set (guardians s did)"
    using assms(1) by (simp_all add: approvalsCounted_def)
  have c1: "card (insert (msg_sender m) {g. recoveryApprovals s did g})
              = unat (recoveryApprovalCount s did + 1)"
    using na c ov by (simp add: unat_inc)
  have s1: "approvalsCounted ?s1"
    unfolding approvalsCounted_def
  proof (intro allI)
    fix d
    show "card {g. recoveryApprovals ?s1 d g} = unat (recoveryApprovalCount ?s1 d)
      \<and> {g. recoveryApprovals ?s1 d g} \<subseteq> set (guardians ?s1 d)
      \<and> (pendingRecoveryAddress ?s1 d = 0 \<longrightarrow> recoveryApprovalCount ?s1 d = 0)"
    proof (cases "d = did")
      case True
      then show ?thesis using c1 sub g p by (simp add: upd_True_set)
    next
      case False
      then show ?thesis using assms(1) by (simp add: approvalsCounted_def)
    qed
  qed
  show ?thesis
  proof (cases "requiredApprovals ?s1 did \<le> unat (recoveryApprovalCount ?s1 did)")
    case False
    then show ?thesis using s1 s' by simp
  next
    case True
    then have e: "s' = executeRecovery m did ?s1" using s' by simp
    have cl: "\<And>a. \<not> clearApprovals (guardians s did) ((recoveryApprovals s did)(msg_sender m := True)) a"
      using sub g by (auto simp: clearApprovals_apply)
    show ?thesis
      unfolding approvalsCounted_def
    proof (intro allI)
      fix d
      show "card {g. recoveryApprovals s' d g} = unat (recoveryApprovalCount s' d)
        \<and> {g. recoveryApprovals s' d g} \<subseteq> set (guardians s' d)
        \<and> (pendingRecoveryAddress s' d = 0 \<longrightarrow> recoveryApprovalCount s' d = 0)"
      proof (cases "d = did")
        case True
        then show ?thesis using cl by (simp add: e executeRecovery_def Let_def)
      next
        case False
        then show ?thesis using assms(1)
          by (simp add: e executeRecovery_def Let_def approvalsCounted_def)
      qed
    qed
  qed
qed

lemma recovery_frame:
  assumes "exec kec m c s = Inr s'"
    and "\<forall>did newOwner. c \<noteq> InitiateRecovery did newOwner"
    and "\<forall>did. c \<noteq> ApproveRecovery did"
  shows "recoveryApprovals s' = recoveryApprovals s
       \<and> recoveryApprovalCount s' = recoveryApprovalCount s
       \<and> pendingRecoveryAddress s' = pendingRecoveryAddress s
       \<and> (\<forall>did. set (guardians s did) \<subseteq> set (guardians s' did))"
proof (cases c)
  case (CreateIdentity h ipfs)
  then show ?thesis using assms(1)
    by (auto simp: createIdentity_def Let_def split: if_splits)
next
  case (UpdateIdentity did ipfs)
  then show ?thesis using assms(1)
    by (auto simp: updateIdentity_def split: if_splits)
next
  case (AddVerification did vt pr)
  then show ?thesis using assms(1)
    by (auto simp: addVerification_def Let_def split: if_splits)
next
  case (RevokeVerification did idx)
  then show ?thesis using assms(1)
    by (auto simp: revokeVerification_def split: if_splits)
next
  case (RevokeIdentity did)
  then show ?thesis using assms(1)
    by (auto simp: revokeIdentity_def split: if_splits)
next
  case (AddGuardian did g)
  then show ?thesis using assms(1)
    by (auto simp: addGuardian_def split: if_splits)
next
  case PauseCall
  then show ?thesis using assms(1)
    by (auto simp: pause_def split: if_splits)
next
  case UnpauseCall
  then show ?thesis using assms(1)
    by (auto simp: unpause_def split: if_splits)
next
  case (GrantRole r a)
  then show ?thesis using assms(1)
    by (auto simp: grantRole_def split: if_splits)
next
  case (RevokeRole r a)
  then show ?thesis using assms(1)
    by (auto simp: revokeRole_def split: if_splits)
next
  case (RenounceRole r a)
  then show ?thesis using assms(1)
    by (auto simp: renounceRole_def split: if_splits)
next
  case (InitiateRecovery did newOwner)
  then show ?thesis using assms(2) by simp
next
  case (ApproveRecovery did)
  then show ?thesis using assms(3) by simp
qed

lemma approvalsCounted_exec:
  assumes "approvalsCounted s" "exec kec m c s = Inr s'"
  shows "approvalsCounted s'"
proof (cases c)
  case (InitiateRecovery did newOwner)
  then show ?thesis using assms approvalsCounted_initiate by simp
next
  case (ApproveRecovery did)
  then show ?thesis using assms approvalsCounted_approve by simp
qed (use assms recovery_frame [OF assms(2)] approvalsCounted_same [of s s'] in simp_all)

lemma approvalsCounted_apply_tx: "approvalsCounted s \<Longrightarrow> approvalsCounted (apply_tx kec s tx)"
  by (cases tx) (auto split: sum.splits dest: approvalsCounted_exec)

lemma approvalsCounted_run: "approvalsCounted s \<Longrightarrow> approvalsCounted (run kec txs s)"
  by (induction txs arbitrary: s) (simp_all add: approvalsCounted_apply_tx)

subsection \<open>Ownership query\<close>

lemma verifyOwnership_after_revoke:
  "revokeIdentity m did s = Inr s' \<Longrightarrow> \<not> verifyOwnership s' did p"
  by (auto simp: revokeIdentity_def verifyOwnership_def split: if_splits)

lemma verifyOwnership_after_recovery:
  assumes "approveRecovery m did s = Inr s'" and "pendingRecoveryAddress s' did = 0"
  shows "verifyOwnership s' did p \<longleftrightarrow>
           p = pendingRecoveryAddress s did \<and> isActive (identities s did)
             \<and> \<not> isRevoked (identities s did)"
  using assms
  by (auto simp: approveRecovery_def executeRecovery_def verifyOwnership_def Let_def
           split: if_splits)

text \<open>
  C6. In every state reached by an execution, \<open>verifyOwnership(id, p)\<close> is true exactly
  when the owner field of the identity is \<open>p\<close>, the identity is active and it is not
  revoked. The state after a successful \<open>revokeIdentity\<close> and the state after an
  \<open>approveRecovery\<close> that completes a recovery are such states; there the query is,
  accordingly, false for every principal after the revocation, and true exactly for the
  proposed owner of an active, unrevoked identity after the recovery.
\<close>

theorem verifyOwnership_three_way:
  "(let s = run kec txs (constructor deployer) in
      verifyOwnership s did p \<longleftrightarrow>
        owner (identities s did) = p \<and> isActive (identities s did)
          \<and> \<not> isRevoked (identities s did))
   \<and> (revokeIdentity m1 did1 s1 = Inr s1' \<longrightarrow> \<not> verifyOwnership s1' did1 p)
   \<and> (approveRecovery m2 did2 s2 = Inr s2' \<and> pendingRecoveryAddress s2' did2 = 0 \<longrightarrow>
        (verifyOwnership s2' did2 p \<longleftrightarrow>
           p = pendingRecoveryAddress s2 did2 \<and> isActive (identities s2 did2)
             \<and> \<not> isRevoked (identities s2 did2)))"
proof -
  have a: "\<And>s d. verifyOwnership s d p \<longleftrightarrow>
      owner (identities s d) = p \<and> isActive (identities s d) \<and> \<not> isRevoked (identities s d)"
    by (simp add: verifyOwnership_def)
  show ?thesis
    using a verifyOwnership_after_revoke [of m1 did1 s1 s1' p]
      verifyOwnership_after_recovery [of m2 did2 s2 s2' p]
    by (simp add: Let_def)
qed

theorem verifyOwnership_three_way_witness:
  "(\<exists>s'. revokeIdentity (ctx 17 104) 161 recoveryPending = Inr s'
          \<and> \<not> verifyOwnership s' 161 17)
   \<and> (\<exists>s'. approveRecovery (ctx 34 104) 161 recoveryPending = Inr s'
          \<and> pendingRecoveryAddress s' 161 = 0
          \<and> verifyOwnership s' 161 18 \<and> \<not> verifyOwnership s' 161 17)"
proof -
  obtain r where r: "revokeIdentity (ctx 17 104) 161 recoveryPending = Inr r"
    by (simp add: recoveryPending_def recoveryTxs_def registry_defs Let_def)
  obtain e where e: "approveRecovery (ctx 34 104) 161 recoveryPending = Inr e"
      and p: "pendingRecoveryAddress e 161 = 0"
    by (simp add: recoveryPending_def recoveryTxs_def registry_defs Let_def)
  have q: "pendingRecoveryAddress recoveryPending 161 = 18
           \<and> isActive (identities recoveryPending 161)
           \<and> \<not> isRevoked (identities recoveryPending 161)"
    by (simp add: recoveryPending_def recoveryTxs_def registry_defs Let_def)
  have t1: "\<not> verifyOwnership r 161 17"
    using verifyOwnership_three_way
      [where p = 17 and ?m1.0 = "ctx 17 104" and ?did1.0 = 161 and ?s1.0 = recoveryPending
         and ?s1'.0 = r] r
    by simp
  have t2: "verifyOwnership e 161 18"
    using verifyOwnership_three_way
      [where p = 18 and ?m2.0 = "ctx 34 104" and ?did2.0 = 161 and ?s2.0 = recoveryPending
         and ?s2'.0 = e] e p q
    by simp
  have t3: "\<not> verifyOwnership e 161 17"
    using verifyOwnership_three_way
      [where p = 17 and ?m2.0 = "ctx 34 104" and ?did2.0 = 161 and ?s2.0 = recoveryPending
         and ?s2'.0 = e] e p q
    by simp
  show ?thesis using r e p t1 t2 t3 by blast
qed

subsection \<open>Validity of a platform verification\<close>

text \<open>
  C7. \<open>isVerificationValid\<close> is true exactly when the record of the pair is active and
  either never expires (\<open>expiresAt = 0\<close>) or the query time is not after \<open>expiresAt\<close>.
  In particular a record that is still active (never revoked) is invalid as soon as the
  query time is after a non-zero \<open>expiresAt\<close>.
\<close>

theorem isVerificationValid_iff:
  "(isVerificationValid m s did pid \<longleftrightarrow>
      verificationIsActive (platformVerifications s did pid)
      \<and> (expiresAt (platformVerifications s did pid) = 0
          \<or> block_timestamp m \<le> expiresAt (platformVerifications s did pid)))
   \<and> (verificationIsActive (platformVerifications s did pid)
        \<and> expiresAt (platformVerifications s did pid) \<noteq> 0
        \<and> expiresAt (platformVerifications s did pid) < block_timestamp m
      \<longrightarrow> \<not> isVerificationValid m s did pid)"
  by (auto simp: isVerificationValid_def Let_def word_gt_0 not_less)

theorem isVerificationValid_iff_witness:
  "verificationIsActive (platformVerifications verifiedOnce 161 11)
   \<and> expiresAt (platformVerifications verifiedOnce 161 11) = 87400
   \<and> isVerificationValid (ctx 1 87400) verifiedOnce 161 11
   \<and> \<not> isVerificationValid (ctx 1 87401) verifiedOnce 161 11"
proof -
  have h: "verificationIsActive (platformVerifications verifiedOnce 161 11)
           \<and> expiresAt (platformVerifications verifiedOnce 161 11) = 87400"
    by (simp add: verifiedOnce_def platformTxs_def platform_defs Let_def)
  have t: "block_timestamp (ctx 1 87400) = 87400 \<and> block_timestamp (ctx 1 87401) = 87401"
    by (simp add: ctx_def)
  have "isVerificationValid (ctx 1 87400) verifiedOnce 161 11"
    using isVerificationValid_iff [of "ctx 1 87400" verifiedOnce 161 11] h t by simp
  moreover have "\<not> isVerificationValid (ctx 1 87401) verifiedOnce 161 11"
    using isVerificationValid_iff [of "ctx 1 87401" verifiedOnce 161 11] h t by simp
  ultimately show ?thesis using h by blast
qed

subsection \<open>Batch check\<close>

lemma isVerificationValid_body:
  "(if 0 < expiresAt (platformVerifications s d pid)
       \<and> expiresAt (platformVerifications s d pid) < block_timestamp m
    then False else verificationIsActive (platformVerifications s d pid))
   = isVerificationValid m s d pid"
  by (simp add: isVerificationValid_def Let_def)

lemma batchVerificationCheck_loop_eq:
  "length results = length dids \<Longrightarrow> i \<le> length dids \<Longrightarrow>
   batchVerificationCheck_loop m s dids pid i results =
     take i results @ map (\<lambda>d. isVerificationValid m s d pid) (drop i dids)"
proof (induction m s dids pid i results rule: batchVerificationCheck_loop.induct)
  case (1 m s dids pid i results)
  show ?case
  proof (cases "i < length dids")
    case True
    let ?v = "isVerificationValid m s (dids ! i) pid"
    have step: "batchVerificationCheck_loop m s dids pid i results =
        batchVerificationCheck_loop m s dids pid (Suc i) (results[i := ?v])"
      using True
      by (subst batchVerificationCheck_loop.simps) (simp add: Let_def isVerificationValid_body)
    have ih: "batchVerificationCheck_loop m s dids pid (Suc i) (results[i := ?v]) =
        take (Suc i) (results[i := ?v])
          @ map (\<lambda>d. isVerificationValid m s d pid) (drop (Suc i) dids)"
      using "1.IH" [OF True refl refl refl] True "1.prems"
      by (simp add: isVerificationValid_body)
    have "take (Suc i) (results[i := ?v]) = take i results @ [?v]"
      using True "1.prems" by (simp add: take_Suc_conv_app_nth)
    moreover have "drop i dids = dids ! i # drop (Suc i) dids"
      using True by (simp add: Cons_nth_drop_Suc)
    ultimately show ?thesis using step ih by simp
  next
    case False
    then have "i = length dids" using "1.prems" by simp
    then show ?thesis using "1.prems"
      by (subst batchVerificationCheck_loop.simps) simp
  qed
qed

text \<open>
  C9. \<open>batchVerificationCheck\<close> returns one result per input identifier, in input
  order, and the result at each index is \<open>isVerificationValid\<close> of the identifier at
  that index, at the same time; a \<open>false\<close> entry changes nothing after it.
\<close>

theorem batchVerificationCheck_pointwise:
  "batchVerificationCheck m s dids pid = map (\<lambda>d. isVerificationValid m s d pid) dids
   \<and> length (batchVerificationCheck m s dids pid) = length dids
   \<and> (\<forall>i < length dids.
        batchVerificationCheck m s dids pid ! i = isVerificationValid m s (dids ! i) pid)"
  by (simp add: batchVerificationCheck_def batchVerificationCheck_loop_eq)

theorem batchVerificationCheck_pointwise_witness:
  "(1::nat) < length [162, 161 :: bytes32]
   \<and> \<not> isVerificationValid (ctx 1 1000) verifiedOnce 162 11
   \<and> isVerificationValid (ctx 1 1000) verifiedOnce 161 11
   \<and> batchVerificationCheck (ctx 1 1000) verifiedOnce [162, 161] 11 ! 1
   \<and> batchVerificationCheck (ctx 1 1000) verifiedOnce [162, 161] 11 = [False, True]"
proof -
  have v: "\<not> isVerificationValid (ctx 1 1000) verifiedOnce 162 11
           \<and> isVerificationValid (ctx 1 1000) verifiedOnce 161 11"
    by (simp add: isVerificationValid_def verifiedOnce_def platformTxs_def platform_defs Let_def)
  show ?thesis
    using batchVerificationCheck_pointwise [of "ctx 1 1000" verifiedOnce "[162, 161]" 11] v
    by simp
qed

subsection \<open>Social recovery: the quorum\<close>

text \<open>
  C1 as worded does not hold: with three guardians, the initiator's approval and one more
  (two approvals, which is \<open>N - 1\<close>) reach the majority of \<open>3 div 2 + 1 = 2\<close> and
  the second approval transfers the identity.
\<close>

theorem recovery_N_minus_1_counterexample:
  "length (guardians quorumPending 161) = 3
   \<and> recoveryApprovalCount quorumPending 161 = 1
   \<and> recoveryApprovals quorumPending 161 33
   \<and> \<not> recoveryApprovals quorumPending 161 34
   \<and> owner (identities quorumPending 161) = 17
   \<and> owner (identities (apply_tx exampleDidHash quorumPending (ctx 34 105, ApproveRecovery 161)) 161) = 18"
  by (simp add: quorumPending_def quorumTxs_def registry_defs Let_def)

text \<open>
  C1, amended. In a state reached by an execution the approval counter of an identity is
  the number of distinct guardians whose approval flag is set. For a successful
  \<open>approveRecovery\<close> on an identity with \<open>N\<close> guardians (the length of the guardian
  list when the approval arrives): if the distinct approvals, this one included, reach
  \<open>N div 2 + 1\<close>, then within this operation the owner becomes the proposed owner, the
  pending request is cleared, the counter is reset and every approval flag is cleared;
  if they stay below \<open>N div 2 + 1\<close>, neither the owner nor the pending request
  changes.
\<close>

theorem approveRecovery_commits_at_quorum:
  assumes "s = run kec txs (constructor deployer)" and "approveRecovery m did s = Inr s'"
  shows "card {g. recoveryApprovals s did g} = unat (recoveryApprovalCount s did)
     \<and> {g. recoveryApprovals s did g} \<subseteq> set (guardians s did)
     \<and> msg_sender m \<in> set (guardians s did) \<and> \<not> recoveryApprovals s did (msg_sender m)
     \<and> pendingRecoveryAddress s did \<noteq> 0
     \<and> (length (guardians s did) div 2 + 1 \<le> card {g. recoveryApprovals s did g} + 1 \<longrightarrow>
          owner (identities s' did) = pendingRecoveryAddress s did
          \<and> pendingRecoveryAddress s' did = 0 \<and> recoveryApprovalCount s' did = 0
          \<and> (\<forall>g. \<not> recoveryApprovals s' did g))
     \<and> (card {g. recoveryApprovals s did g} + 1 < length (guardians s did) div 2 + 1 \<longrightarrow>
          owner (identities s' did) = owner (identities s did)
          \<and> pendingRecoveryAddress s' did = pendingRecoveryAddress s did
          \<and> card {g. recoveryApprovals s' did g} = card {g. recoveryApprovals s did g} + 1)"
proof -
  have inv: "approvalsCounted s"
    using assms(1) approvalsCounted_run [OF approvalsCounted_constructor] by simp
  then have c: "card {g. recoveryApprovals s did g} = unat (recoveryApprovalCount s did)"
    and sub: "{g. recoveryApprovals s did g} \<subseteq> set (guardians s did)"
    by (simp_all add: approvalsCounted_def)
  have inv': "approvalsCounted s'"
    using inv assms(2) by (rule approvalsCounted_approve)
  from assms(2) have g: "msg_sender m \<in> set (guardians s did)"
    and na: "\<not> recoveryApprovals s did (msg_sender m)"
    and pe: "pendingRecoveryAddress s did \<noteq> 0"
    and ov: "recoveryApprovalCount s did + 1 \<noteq> 0"
    by (auto simp: approveRecovery_def isGuardian_def isGuardian_loop_set Let_def split: if_splits)
  have k: "unat (recoveryApprovalCount s did + 1) = card {g. recoveryApprovals s did g} + 1"
    using ov c by (simp add: unat_inc)
  have commit: "length (guardians s did) div 2 + 1 \<le> card {g. recoveryApprovals s did g} + 1 \<Longrightarrow>
          owner (identities s' did) = pendingRecoveryAddress s did
          \<and> pendingRecoveryAddress s' did = 0 \<and> recoveryApprovalCount s' did = 0"
    using assms(2) k
    by (auto simp: approveRecovery_def executeRecovery_def requiredApprovals_def Let_def
             split: if_splits)
  have cleared: "recoveryApprovalCount s' did = 0 \<Longrightarrow> \<forall>g. \<not> recoveryApprovals s' did g"
  proof -
    assume "recoveryApprovalCount s' did = 0"
    then have "card {g. recoveryApprovals s' did g} = 0"
      using inv' by (simp add: approvalsCounted_def)
    then have "{g. recoveryApprovals s' did g} = {}" by simp
    then show ?thesis by blast
  qed
  have stay: "card {g. recoveryApprovals s did g} + 1 < length (guardians s did) div 2 + 1 \<Longrightarrow>
          owner (identities s' did) = owner (identities s did)
          \<and> pendingRecoveryAddress s' did = pendingRecoveryAddress s did
          \<and> recoveryApprovalCount s' did = recoveryApprovalCount s did + 1"
    using assms(2) k
    by (auto simp: approveRecovery_def executeRecovery_def requiredApprovals_def Let_def
             split: if_splits)
  have stay_card: "recoveryApprovalCount s' did = recoveryApprovalCount s did + 1 \<Longrightarrow>
      card {g. recoveryApprovals s' did g} = card {g. recoveryApprovals s did g} + 1"
    using inv' k by (simp add: approvalsCounted_def)
  show ?thesis using c sub g na pe commit cleared stay stay_card by blast
qed

theorem approveRecovery_commits_at_quorum_witness:
  "recoveryPending = run exampleDidHash recoveryTxs (constructor 1)
   \<and> length (guardians recoveryPending 161) = 2
   \<and> card {g. recoveryApprovals recoveryPending 161 g} = 1
   \<and> (\<exists>s'. approveRecovery (ctx 34 104) 161 recoveryPending = Inr s'
         \<and> owner (identities s' 161) = 18 \<and> pendingRecoveryAddress s' 161 = 0
         \<and> recoveryApprovalCount s' 161 = 0 \<and> (\<forall>g. \<not> recoveryApprovals s' 161 g))
   \<and> quorumGrown = run exampleDidHash
         (quorumTxs @ [(ctx 17 105, AddGuardian 161 36), (ctx 17 106, AddGuardian 161 37)])
         (constructor 1)
   \<and> length (guardians quorumGrown 161) = 5
   \<and> card {g. recoveryApprovals quorumGrown 161 g} = 1
   \<and> (\<exists>s'. approveRecovery (ctx 34 107) 161 quorumGrown = Inr s'
         \<and> owner (identities s' 161) = 17 \<and> pendingRecoveryAddress s' 161 = 18
         \<and> card {g. recoveryApprovals s' 161 g} = 2)"
proof -
  obtain e where e: "approveRecovery (ctx 34 104) 161 recoveryPending = Inr e"
    by (simp add: recoveryPending_def recoveryTxs_def registry_defs Let_def)
  have q: "length (guardians recoveryPending 161) = 2
      \<and> unat (recoveryApprovalCount recoveryPending 161) = 1
      \<and> pendingRecoveryAddress recoveryPending 161 = 18"
    by (simp add: recoveryPending_def recoveryTxs_def registry_defs Let_def)
  note t = approveRecovery_commits_at_quorum [OF recoveryPending_def e]
  have c: "card {g. recoveryApprovals recoveryPending 161 g} = 1"
    using t q by simp
  have t1: "owner (identities e 161) = 18 \<and> pendingRecoveryAddress e 161 = 0
         \<and> recoveryApprovalCount e 161 = 0 \<and> (\<forall>g. \<not> recoveryApprovals e 161 g)"
    using t q c by simp
  have g: "quorumGrown = run exampleDidHash
         (quorumTxs @ [(ctx 17 105, AddGuardian 161 36), (ctx 17 106, AddGuardian 161 37)])
         (constructor 1)"
    unfolding quorumGrown_def quorumPending_def run_append ..
  obtain f where f: "approveRecovery (ctx 34 107) 161 quorumGrown = Inr f"
    by (simp add: quorumGrown_def quorumPending_def quorumTxs_def registry_defs Let_def)
  have q2: "length (guardians quorumGrown 161) = 5
      \<and> unat (recoveryApprovalCount quorumGrown 161) = 1
      \<and> pendingRecoveryAddress quorumGrown 161 = 18
      \<and> owner (identities quorumGrown 161) = 17"
    by (simp add: quorumGrown_def quorumPending_def quorumTxs_def registry_defs Let_def)
  note u = approveRecovery_commits_at_quorum [OF g f]
  have c2: "card {g. recoveryApprovals quorumGrown 161 g} = 1"
    using u q2 by simp
  have t2: "owner (identities f 161) = 17 \<and> pendingRecoveryAddress f 161 = 18
         \<and> card {g. recoveryApprovals f 161 g} = 2"
    using u q2 c2 by simp
  show ?thesis using e q c t1 g f q2 c2 t2 recoveryPending_def by blast
qed

text \<open>
  C5 as worded does not hold: a request created with three guardians needs two
  approvals; after the owner adds two guardians the second approval no longer commits
  it.
\<close>

theorem quorum_snapshot_counterexample:
  "requiredApprovals quorumPending 161 = 2
   \<and> recoveryApprovalCount quorumPending 161 = 1
   \<and> owner (identities (apply_tx exampleDidHash quorumPending (ctx 34 107, ApproveRecovery 161)) 161) = 18
   \<and> pendingRecoveryAddress quorumGrown 161 = 18
   \<and> recoveryApprovalCount quorumGrown 161 = 1
   \<and> owner (identities (apply_tx exampleDidHash quorumGrown (ctx 34 107, ApproveRecovery 161)) 161) = 17
   \<and> pendingRecoveryAddress (apply_tx exampleDidHash quorumGrown (ctx 34 107, ApproveRecovery 161)) 161 = 18
   \<and> recoveryApprovalCount (apply_tx exampleDidHash quorumGrown (ctx 34 107, ApproveRecovery 161)) 161 = 2"
  by (simp add: quorumGrown_def quorumPending_def quorumTxs_def registry_defs Let_def)

text \<open>
  C5, amended. The threshold of a pending request is not fixed when the request is
  created: \<open>addGuardian\<close> leaves the request, its counter and its flags as they are and
  lengthens the guardian list by one, and a successful \<open>approveRecovery\<close> commits
  exactly when the approvals, this one included, reach \<open>N div 2 + 1\<close> for the length
  \<open>N\<close> of the guardian list at the moment of that approval. Guardians added after
  \<open>initiateRecovery\<close> therefore change the number of approvals the request needs:
  they never lower it, one added guardian raises it by one exactly when the list had an
  odd length, and two added guardians always raise it by one.
\<close>

theorem quorum_from_current_guardians:
  "(addGuardian m did g s = Inr s' \<longrightarrow>
      pendingRecoveryAddress s' = pendingRecoveryAddress s
      \<and> recoveryApprovalCount s' = recoveryApprovalCount s
      \<and> recoveryApprovals s' = recoveryApprovals s
      \<and> length (guardians s' did) = length (guardians s did) + 1
      \<and> requiredApprovals s' did = (length (guardians s did) + 1) div 2 + 1
      \<and> requiredApprovals s did \<le> requiredApprovals s' did
      \<and> requiredApprovals s' did
          = (if odd (length (guardians s did)) then requiredApprovals s did + 1
             else requiredApprovals s did))
   \<and> (addGuardian m did g s = Inr s' \<and> addGuardian m3 did g3 s' = Inr s3 \<longrightarrow>
        requiredApprovals s3 did = requiredApprovals s did + 1)
   \<and> (approveRecovery m2 did2 s2 = Inr s2' \<longrightarrow>
        (pendingRecoveryAddress s2' did2 = 0 \<longleftrightarrow>
           length (guardians s2 did2) div 2 + 1 \<le> unat (recoveryApprovalCount s2 did2) + 1)
        \<and> (pendingRecoveryAddress s2' did2 = 0 \<longrightarrow>
             owner (identities s2' did2) = pendingRecoveryAddress s2 did2)
        \<and> (pendingRecoveryAddress s2' did2 \<noteq> 0 \<longrightarrow>
             owner (identities s2' did2) = owner (identities s2 did2)))"
proof -
  have a: "addGuardian m did g s = Inr s' \<Longrightarrow>
      pendingRecoveryAddress s' = pendingRecoveryAddress s
      \<and> recoveryApprovalCount s' = recoveryApprovalCount s
      \<and> recoveryApprovals s' = recoveryApprovals s
      \<and> length (guardians s' did) = length (guardians s did) + 1
      \<and> requiredApprovals s' did = (length (guardians s did) + 1) div 2 + 1
      \<and> requiredApprovals s did \<le> requiredApprovals s' did"
    by (auto simp: addGuardian_def requiredApprovals_def split: if_splits)
  have a1: "addGuardian m did g s = Inr s' \<Longrightarrow>
      requiredApprovals s' did
        = (if odd (length (guardians s did)) then requiredApprovals s did + 1
           else requiredApprovals s did)"
  proof -
    assume "addGuardian m did g s = Inr s'"
    then have "length (guardians s' did) = length (guardians s did) + 1"
      by (auto simp: addGuardian_def split: if_splits)
    then show ?thesis
      unfolding requiredApprovals_def by presburger
  qed
  have a2: "addGuardian m did g s = Inr s' \<Longrightarrow> addGuardian m3 did g3 s' = Inr s3 \<Longrightarrow>
      requiredApprovals s3 did = requiredApprovals s did + 1"
  proof -
    assume "addGuardian m did g s = Inr s'" and "addGuardian m3 did g3 s' = Inr s3"
    then have "length (guardians s3 did) = length (guardians s did) + 2"
      by (auto simp: addGuardian_def split: if_splits)
    then show ?thesis
      unfolding requiredApprovals_def by presburger
  qed
  have b: "approveRecovery m2 did2 s2 = Inr s2' \<Longrightarrow>
        (pendingRecoveryAddress s2' did2 = 0 \<longleftrightarrow>
           length (guardians s2 did2) div 2 + 1 \<le> unat (recoveryApprovalCount s2 did2) + 1)
        \<and> (pendingRecoveryAddress s2' did2 = 0 \<longrightarrow>
             owner (identities s2' did2) = pendingRecoveryAddress s2 did2)
        \<and> (pendingRecoveryAddress s2' did2 \<noteq> 0 \<longrightarrow>
             owner (identities s2' did2) = owner (identities s2 did2))"
    by (auto simp: approveRecovery_def executeRecovery_def requiredApprovals_def Let_def
          unat_inc split: if_splits)
  show ?thesis using a a1 a2 b by blast
qed

theorem quorum_from_current_guardians_witness:
  "requiredApprovals quorumPending 161 = 2
   \<and> (\<exists>s' s3. addGuardian (ctx 17 105) 161 36 quorumPending = Inr s'
          \<and> addGuardian (ctx 17 106) 161 37 s' = Inr s3
          \<and> requiredApprovals s' 161 = 3 \<and> requiredApprovals s3 161 = 3)
   \<and> requiredApprovals recoveryPending 161 = 2
   \<and> (\<exists>s'. addGuardian (ctx 17 105) 161 35 recoveryPending = Inr s'
          \<and> requiredApprovals s' 161 = 2)
   \<and> (\<exists>s'. approveRecovery (ctx 34 107) 161 quorumGrown = Inr s'
          \<and> length (guardians quorumGrown 161) = 5
          \<and> pendingRecoveryAddress s' 161 \<noteq> 0
          \<and> owner (identities s' 161) = 17)"
proof -
  obtain a where a: "addGuardian (ctx 17 105) 161 36 quorumPending = Inr a"
    by (simp add: quorumPending_def quorumTxs_def registry_defs Let_def)
  have oa: "owner (identities a 161) = 17"
    using a by (auto simp: addGuardian_def quorumPending_def quorumTxs_def registry_defs
                  Let_def split: if_splits)
  obtain a3 where a3: "addGuardian (ctx 17 106) 161 37 a = Inr a3"
    using oa by (simp add: addGuardian_def ctx_def)
  have qa: "length (guardians quorumPending 161) = 3"
    by (simp add: quorumPending_def quorumTxs_def registry_defs Let_def)
  have rq: "requiredApprovals quorumPending 161 = 2"
    using qa by (simp add: requiredApprovals_def)
  note t = quorum_from_current_guardians
      [where m = "ctx 17 105" and did = 161 and g = 36 and s = quorumPending and s' = a
         and ?m3.0 = "ctx 17 106" and ?g3.0 = 37 and ?s3.0 = a3]
  have ra: "requiredApprovals a 161 = 3"
    using t a qa by simp
  have ra3: "requiredApprovals a3 161 = 3"
    using t a a3 rq by simp
  obtain b where b: "addGuardian (ctx 17 105) 161 35 recoveryPending = Inr b"
    by (simp add: recoveryPending_def recoveryTxs_def registry_defs Let_def)
  have qb: "length (guardians recoveryPending 161) = 2"
    by (simp add: recoveryPending_def recoveryTxs_def registry_defs Let_def)
  have rb0: "requiredApprovals recoveryPending 161 = 2"
    using qb by (simp add: requiredApprovals_def)
  have rb: "requiredApprovals b 161 = 2"
    using quorum_from_current_guardians
      [where m = "ctx 17 105" and did = 161 and g = 35 and s = recoveryPending and s' = b]
      b qb
    by simp
  obtain e where e: "approveRecovery (ctx 34 107) 161 quorumGrown = Inr e"
    by (simp add: quorumGrown_def quorumPending_def quorumTxs_def registry_defs Let_def)
  have q: "length (guardians quorumGrown 161) = 5
      \<and> unat (recoveryApprovalCount quorumGrown 161) = 1
      \<and> owner (identities quorumGrown 161) = 17"
    by (simp add: quorumGrown_def quorumPending_def quorumTxs_def registry_defs Let_def)
  have "pendingRecoveryAddress e 161 \<noteq> 0 \<and> owner (identities e 161) = 17"
    using quorum_from_current_guardians
      [where ?m2.0 = "ctx 34 107" and ?did2.0 = 161 and ?s2.0 = quorumGrown and ?s2'.0 = e] e q
    by simp
  then show ?thesis using a a3 b e q rq ra ra3 rb0 rb by blast
qed

subsection \<open>The pause flag\<close>

text \<open>
  C2 as worded does not hold: while the contract is paused the owner of identity 161
  revokes it, and the revocation takes effect.
\<close>

theorem pause_not_global_counterexample:
  "paused pausedRegistry
   \<and> revokeIdentity (ctx 17 102) 161 pausedRegistry \<noteq> Inl EnforcedPause
   \<and> \<not> isRevoked (identities pausedRegistry 161)
   \<and> isRevoked (identities (apply_tx exampleDidHash pausedRegistry (ctx 17 102, RevokeIdentity 161)) 161)"
  by (simp add: pausedRegistry_def pausedTxs_def registry_defs Let_def)

text \<open>
  C2, amended. When the pause flag is set, \<open>createIdentity\<close>, \<open>updateIdentity\<close> and
  \<open>addVerification\<close> revert with the pause error and leave the storage unchanged. The
  other state-changing functions of the identity registry (\<open>revokeIdentity\<close>,
  \<open>revokeVerification\<close>, \<open>addGuardian\<close>, \<open>initiateRecovery\<close>, \<open>approveRecovery\<close>)
  do not read the flag: they behave the same whatever its value. The read-only queries
  do not read it either. The storage of the platform registry has no pause flag.
\<close>

theorem pause_gates_three_operations:
  "(paused s \<longrightarrow>
      createIdentity kec m h ipfs s = Inl EnforcedPause
      \<and> updateIdentity m did ipfs s = Inl EnforcedPause
      \<and> addVerification m did vt pr s = Inl EnforcedPause
      \<and> apply_tx kec s (m, CreateIdentity h ipfs) = s
      \<and> apply_tx kec s (m, UpdateIdentity did ipfs) = s
      \<and> apply_tx kec s (m, AddVerification did vt pr) = s)
   \<and> revokeIdentity m did (s\<lparr>paused := b\<rparr>)
        = map_sum id (\<lambda>t. t\<lparr>paused := b\<rparr>) (revokeIdentity m did s)
   \<and> revokeVerification m did idx (s\<lparr>paused := b\<rparr>)
        = map_sum id (\<lambda>t. t\<lparr>paused := b\<rparr>) (revokeVerification m did idx s)
   \<and> addGuardian m did g (s\<lparr>paused := b\<rparr>)
        = map_sum id (\<lambda>t. t\<lparr>paused := b\<rparr>) (addGuardian m did g s)
   \<and> initiateRecovery m did g (s\<lparr>paused := b\<rparr>)
        = map_sum id (\<lambda>t. t\<lparr>paused := b\<rparr>) (initiateRecovery m did g s)
   \<and> approveRecovery m did (s\<lparr>paused := b\<rparr>)
        = map_sum id (\<lambda>t. t\<lparr>paused := b\<rparr>) (approveRecovery m did s)
   \<and> verifyOwnership (s\<lparr>paused := b\<rparr>) = verifyOwnership s
   \<and> getIdentity (s\<lparr>paused := b\<rparr>) = getIdentity s
   \<and> getVerificationCount (s\<lparr>paused := b\<rparr>) = getVerificationCount s
   \<and> getVerification (s\<lparr>paused := b\<rparr>) = getVerification s
   \<and> getGuardians (s\<lparr>paused := b\<rparr>) = getGuardians s"
proof -
  have gated: "paused s \<Longrightarrow>
      createIdentity kec m h ipfs s = Inl EnforcedPause
      \<and> updateIdentity m did ipfs s = Inl EnforcedPause
      \<and> addVerification m did vt pr s = Inl EnforcedPause
      \<and> apply_tx kec s (m, CreateIdentity h ipfs) = s
      \<and> apply_tx kec s (m, UpdateIdentity did ipfs) = s
      \<and> apply_tx kec s (m, AddVerification did vt pr) = s"
    by (simp add: createIdentity_def updateIdentity_def addVerification_def)
  have u1: "revokeIdentity m did (s\<lparr>paused := b\<rparr>)
        = map_sum id (\<lambda>t. t\<lparr>paused := b\<rparr>) (revokeIdentity m did s)"
    by (simp add: revokeIdentity_def hasRole_def)
  have u2: "revokeVerification m did idx (s\<lparr>paused := b\<rparr>)
        = map_sum id (\<lambda>t. t\<lparr>paused := b\<rparr>) (revokeVerification m did idx s)"
    by (simp add: revokeVerification_def hasRole_def)
  have u3: "addGuardian m did g (s\<lparr>paused := b\<rparr>)
        = map_sum id (\<lambda>t. t\<lparr>paused := b\<rparr>) (addGuardian m did g s)"
    by (simp add: addGuardian_def)
  have u4: "initiateRecovery m did g (s\<lparr>paused := b\<rparr>)
        = map_sum id (\<lambda>t. t\<lparr>paused := b\<rparr>) (initiateRecovery m did g s)"
    by (simp add: initiateRecovery_def isGuardian_def)
  have u5: "approveRecovery m did (s\<lparr>paused := b\<rparr>)
        = map_sum id (\<lambda>t. t\<lparr>paused := b\<rparr>) (approveRecovery m did s)"
    by (simp add: approveRecovery_def isGuardian_def requiredApprovals_def executeRecovery_def
          Let_def)
  have v: "verifyOwnership (s\<lparr>paused := b\<rparr>) = verifyOwnership s
      \<and> getIdentity (s\<lparr>paused := b\<rparr>) = getIdentity s
      \<and> getVerificationCount (s\<lparr>paused := b\<rparr>) = getVerificationCount s
      \<and> getVerification (s\<lparr>paused := b\<rparr>) = getVerification s
      \<and> getGuardians (s\<lparr>paused := b\<rparr>) = getGuardians s"
    by (simp add: fun_eq_iff verifyOwnership_def getIdentity_def getVerification_def
          getVerificationCount_def getGuardians_def)
  show ?thesis using gated u1 u2 u3 u4 u5 v by blast
qed

theorem pause_gates_three_operations_witness:
  "paused pausedRegistry
   \<and> createIdentity exampleDidHash (ctx 18 102) 162 ''QmB'' pausedRegistry = Inl EnforcedPause
   \<and> updateIdentity (ctx 17 102) 161 ''QmC'' pausedRegistry = Inl EnforcedPause
   \<and> addVerification (ctx 2 102) 161 3 7 pausedRegistry = Inl EnforcedPause
   \<and> apply_tx exampleDidHash pausedRegistry (ctx 18 102, CreateIdentity 162 ''QmB'') = pausedRegistry"
proof -
  have p: "paused pausedRegistry"
    by (simp add: pausedRegistry_def pausedTxs_def registry_defs Let_def)
  show ?thesis
    using p pause_gates_three_operations
      [of pausedRegistry exampleDidHash "ctx 18 102" 162 "''QmB''"]
      pause_gates_three_operations [of pausedRegistry _ "ctx 17 102" _ "''QmC''" 161]
      pause_gates_three_operations [of pausedRegistry _ "ctx 2 102" _ _ 161 3 7]
    by blast
qed

subsection \<open>Platform verifications: the occupied slot\<close>

lemma slot_kept_step:
  assumes "verificationIsActive (platformVerifications s did pid)"
    and "platformExec kec m c s = Inr s'"
    and "c \<noteq> RevokePlatformVerification did pid"
  shows "verificationIsActive (platformVerifications s' did pid)"
proof (cases c)
  case (RegisterPlatform nm dmn ptype)
  then show ?thesis using assms(1,2)
    by (auto simp: registerPlatform_def Let_def split: if_splits)
next
  case (CreateVerification d p u days att)
  then show ?thesis using assms(1,2)
    by (auto simp: createVerification_def Let_def split: if_splits sum.splits)
next
  case (RevokePlatformVerification d p)
  then show ?thesis using assms
    by (auto simp: revokePlatformVerification_def split: if_splits)
next
  case (UpdateTrustScore d p sc)
  then show ?thesis using assms(1,2)
    by (auto simp: updateTrustScore_def split: if_splits)
next
  case (DeactivatePlatform p)
  then show ?thesis using assms(1,2)
    by (auto simp: deactivatePlatform_def split: if_splits)
next
  case (PlatformGrantRole r a)
  then show ?thesis using assms(1,2)
    by (auto simp: platformGrantRole_def split: if_splits)
next
  case (PlatformRevokeRole r a)
  then show ?thesis using assms(1,2)
    by (auto simp: platformRevokeRole_def split: if_splits)
next
  case (PlatformRenounceRole r a)
  then show ?thesis using assms(1,2)
    by (auto simp: platformRenounceRole_def split: if_splits)
qed

lemma slot_kept_apply:
  assumes "verificationIsActive (platformVerifications s did pid)"
    and "snd tx \<noteq> RevokePlatformVerification did pid"
  shows "verificationIsActive (platformVerifications (platformApply kec s tx) did pid)"
proof (cases tx)
  case (Pair m c)
  show ?thesis
  proof (cases "platformExec kec m c s")
    case (Inl e)
    then show ?thesis using Pair assms(1) by simp
  next
    case (Inr s')
    then show ?thesis using Pair assms slot_kept_step [of s did pid kec m c s'] by simp
  qed
qed

lemma slot_kept_run:
  "verificationIsActive (platformVerifications s did pid) \<Longrightarrow>
   \<forall>m. (m, RevokePlatformVerification did pid) \<notin> set txs \<Longrightarrow>
   verificationIsActive (platformVerifications (platformRun kec txs s) did pid)"
proof (induction txs arbitrary: s)
  case Nil
  then show ?case by simp
next
  case (Cons tx txs)
  have "snd tx \<noteq> RevokePlatformVerification did pid"
    using Cons.prems(2) by (cases tx) auto
  then have "verificationIsActive (platformVerifications (platformApply kec s tx) did pid)"
    using Cons.prems(1) by (rule slot_kept_apply [rotated])
  then show ?case using Cons.IH Cons.prems(2) by simp
qed

text \<open>
  C8 as worded does not hold: on a deactivated platform a \<open>createVerification\<close> for a
  pair whose record is active fails with the error of the platform check, which comes
  first, not with the already-exists error.
\<close>

theorem occupied_slot_counterexample:
  "verificationIsActive (platformVerifications deactivatedOnce 161 11)
   \<and> createVerification (ctx 1 2000) 161 11 ''user-1'' 1 9 deactivatedOnce
        = Inl (Require ''Platform not active'')
   \<and> createVerification (ctx 1 2000) 161 11 ''user-1'' 1 9 deactivatedOnce
        \<noteq> Inl (Require ''Verification already exists'')"
  by (simp add: deactivatedOnce_def verifiedOnce_def platformTxs_def platform_defs Let_def)

text \<open>
  C8, amended. Whenever the record of the pair is active, \<open>createVerification\<close> for
  that pair fails; the error is the already-exists error whenever the checks made before
  it pass (platform active, caller authorised, user identifier not empty, identifier of
  the identity not zero), and the error of the first failing check otherwise. This
  includes a record that has expired, for which \<open>isVerificationValid\<close> is false. No
  transaction other than a \<open>revokeVerification\<close> of that pair makes the record
  inactive, neither in one step nor along an execution.
\<close>

theorem createVerification_slot_occupied:
  "(verificationIsActive (platformVerifications s did pid) \<longrightarrow>
      (\<exists>e. createVerification m did pid userId days att s = Inl e)
      \<and> (platformIsActive (platforms s pid)
           \<and> (adminAddress (platforms s pid) = msg_sender m
                \<or> platformHasRole s PLATFORM_ADMIN_ROLE (msg_sender m))
           \<and> userId \<noteq> [] \<and> did \<noteq> 0
         \<longrightarrow> createVerification m did pid userId days att s
               = Inl (Require ''Verification already exists''))
      \<and> (expiresAt (platformVerifications s did pid) \<noteq> 0
           \<and> expiresAt (platformVerifications s did pid) < block_timestamp m
         \<longrightarrow> \<not> isVerificationValid m s did pid))
   \<and> (verificationIsActive (platformVerifications s did pid)
        \<and> platformExec kec m2 c s = Inr s' \<and> c \<noteq> RevokePlatformVerification did pid
      \<longrightarrow> verificationIsActive (platformVerifications s' did pid))
   \<and> (verificationIsActive (platformVerifications s did pid)
        \<and> (\<forall>m. (m, RevokePlatformVerification did pid) \<notin> set txs)
      \<longrightarrow> verificationIsActive (platformVerifications (platformRun kec txs s) did pid))
   \<and> (\<not> platformIsActive (platforms s pid) \<longrightarrow>
        createVerification m did pid userId days att s = Inl (Require ''Platform not active''))
   \<and> (platformIsActive (platforms s pid)
        \<and> \<not> (adminAddress (platforms s pid) = msg_sender m
               \<or> platformHasRole s PLATFORM_ADMIN_ROLE (msg_sender m)) \<longrightarrow>
        createVerification m did pid userId days att s = Inl (Require ''Not authorized''))
   \<and> (platformIsActive (platforms s pid)
        \<and> (adminAddress (platforms s pid) = msg_sender m
             \<or> platformHasRole s PLATFORM_ADMIN_ROLE (msg_sender m))
        \<and> userId = [] \<longrightarrow>
        createVerification m did pid userId days att s
          = Inl (Require ''Platform user ID required''))
   \<and> (platformIsActive (platforms s pid)
        \<and> (adminAddress (platforms s pid) = msg_sender m
             \<or> platformHasRole s PLATFORM_ADMIN_ROLE (msg_sender m))
        \<and> userId \<noteq> [] \<and> did = 0 \<longrightarrow>
        createVerification m did pid userId days att s = Inl (Require ''Invalid identity DID''))"
proof -
  have a: "verificationIsActive (platformVerifications s did pid) \<Longrightarrow>
      \<exists>e. createVerification m did pid userId days att s = Inl e"
    by (simp add: createVerification_def)
  have e1: "\<not> platformIsActive (platforms s pid) \<Longrightarrow>
        createVerification m did pid userId days att s = Inl (Require ''Platform not active'')"
    by (simp add: createVerification_def)
  have e2: "platformIsActive (platforms s pid) \<Longrightarrow>
        \<not> (adminAddress (platforms s pid) = msg_sender m
               \<or> platformHasRole s PLATFORM_ADMIN_ROLE (msg_sender m)) \<Longrightarrow>
        createVerification m did pid userId days att s = Inl (Require ''Not authorized'')"
    by (simp add: createVerification_def)
  have e3: "platformIsActive (platforms s pid) \<Longrightarrow>
        adminAddress (platforms s pid) = msg_sender m
             \<or> platformHasRole s PLATFORM_ADMIN_ROLE (msg_sender m) \<Longrightarrow>
        userId = [] \<Longrightarrow>
        createVerification m did pid userId days att s
          = Inl (Require ''Platform user ID required'')"
    by (simp add: createVerification_def)
  have e4: "platformIsActive (platforms s pid) \<Longrightarrow>
        adminAddress (platforms s pid) = msg_sender m
             \<or> platformHasRole s PLATFORM_ADMIN_ROLE (msg_sender m) \<Longrightarrow>
        userId \<noteq> [] \<Longrightarrow> did = 0 \<Longrightarrow>
        createVerification m did pid userId days att s = Inl (Require ''Invalid identity DID'')"
    by (simp add: createVerification_def)
  have b: "verificationIsActive (platformVerifications s did pid) \<Longrightarrow>
      platformIsActive (platforms s pid) \<Longrightarrow>
      adminAddress (platforms s pid) = msg_sender m
        \<or> platformHasRole s PLATFORM_ADMIN_ROLE (msg_sender m) \<Longrightarrow>
      userId \<noteq> [] \<Longrightarrow> did \<noteq> 0 \<Longrightarrow>
      createVerification m did pid userId days att s = Inl (Require ''Verification already exists'')"
    by (simp add: createVerification_def)
  have c: "verificationIsActive (platformVerifications s did pid) \<Longrightarrow>
      expiresAt (platformVerifications s did pid) \<noteq> 0 \<Longrightarrow>
      expiresAt (platformVerifications s did pid) < block_timestamp m \<Longrightarrow>
      \<not> isVerificationValid m s did pid"
    by (simp add: isVerificationValid_def Let_def word_gt_0)
  have f: "verificationIsActive (platformVerifications s did pid) \<Longrightarrow>
      platformExec kec m2 c s = Inr s' \<Longrightarrow> c \<noteq> RevokePlatformVerification did pid \<Longrightarrow>
      verificationIsActive (platformVerifications s' did pid)"
    by (rule slot_kept_step)
  have g: "verificationIsActive (platformVerifications s did pid) \<Longrightarrow>
      \<forall>m. (m, RevokePlatformVerification did pid) \<notin> set txs \<Longrightarrow>
      verificationIsActive (platformVerifications (platformRun kec txs s) did pid)"
    by (rule slot_kept_run)
  show ?thesis
    by (intro conjI impI; (elim conjE)?) (use a b c f g e1 e2 e3 e4 in blast)+
qed

theorem createVerification_slot_occupied_witness:
  "verificationIsActive (platformVerifications verifiedOnce 161 11)
   \<and> expiresAt (platformVerifications verifiedOnce 161 11) = 87400
   \<and> \<not> isVerificationValid (ctx 1 90000) verifiedOnce 161 11
   \<and> createVerification (ctx 1 90000) 161 11 ''user-2'' 1 9 verifiedOnce
        = Inl (Require ''Verification already exists'')
   \<and> createVerification (ctx 1 90000) 161 11 ''user-2'' 1 9 deactivatedOnce
        = Inl (Require ''Platform not active'')
   \<and> (\<exists>s'. platformExec examplePlatformHash (ctx 1 90001) (UpdateTrustScore 161 11 80)
               verifiedOnce = Inr s'
         \<and> verificationIsActive (platformVerifications s' 161 11))
   \<and> verificationIsActive (platformVerifications
        (platformRun examplePlatformHash
           [(ctx 1 90001, UpdateTrustScore 161 11 80), (ctx 1 90002, DeactivatePlatform 11)]
           verifiedOnce) 161 11)"
proof -
  have h: "verificationIsActive (platformVerifications verifiedOnce 161 11)
      \<and> expiresAt (platformVerifications verifiedOnce 161 11) = 87400
      \<and> platformIsActive (platforms verifiedOnce 11)
      \<and> adminAddress (platforms verifiedOnce 11) = 1"
    by (simp add: verifiedOnce_def platformTxs_def platform_defs Let_def)
  have m: "msg_sender (ctx 1 90000) = 1 \<and> block_timestamp (ctx 1 90000) = 90000"
    by (simp add: ctx_def)
  have n: "\<forall>m. (m, RevokePlatformVerification 161 11)
     \<notin> set [(ctx 1 90001, UpdateTrustScore 161 11 80), (ctx 1 90002, DeactivatePlatform 11)]"
    by simp
  obtain u where u: "platformExec examplePlatformHash (ctx 1 90001) (UpdateTrustScore 161 11 80)
               verifiedOnce = Inr u"
    by (simp add: verifiedOnce_def platformTxs_def platform_defs Let_def)
  have ne: "UpdateTrustScore 161 11 80 \<noteq> RevokePlatformVerification 161 11" by simp
  note t = createVerification_slot_occupied
      [where s = verifiedOnce and did = 161 and pid = 11 and m = "ctx 1 90000"
         and userId = "''user-2''" and days = 1 and att = 9 and kec = examplePlatformHash
         and ?m2.0 = "ctx 1 90001" and c = "UpdateTrustScore 161 11 80" and s' = u
         and txs = "[(ctx 1 90001, UpdateTrustScore 161 11 80),
                     (ctx 1 90002, DeactivatePlatform 11)]"]
  have t1: "\<not> isVerificationValid (ctx 1 90000) verifiedOnce 161 11"
    using t h m by simp
  have t2: "createVerification (ctx 1 90000) 161 11 ''user-2'' 1 9 verifiedOnce
        = Inl (Require ''Verification already exists'')"
    using t h m by simp
  have t3: "verificationIsActive (platformVerifications
        (platformRun examplePlatformHash
           [(ctx 1 90001, UpdateTrustScore 161 11 80), (ctx 1 90002, DeactivatePlatform 11)]
           verifiedOnce) 161 11)"
    using t h n by blast
  have t4: "verificationIsActive (platformVerifications u 161 11)"
    using t h u ne by blast
  have d: "\<not> platformIsActive (platforms deactivatedOnce 11)"
    by (simp add: deactivatedOnce_def verifiedOnce_def platformTxs_def platform_defs Let_def)
  have t5: "createVerification (ctx 1 90000) 161 11 ''user-2'' 1 9 deactivatedOnce
        = Inl (Require ''Platform not active'')"
    using createVerification_slot_occupied
      [where s = deactivatedOnce and did = 161 and pid = 11 and m = "ctx 1 90000"
         and userId = "''user-2''" and days = 1 and att = 9] d
    by simp
  show ?thesis using h t1 t2 t3 t4 t5 u by blast
qed

subsection \<open>The binding from a principal to an identifier\<close>

lemma binding_step:
  assumes "exec kec m c s = Inr s'" and "addressToIdentity s p \<noteq> 0"
    and "addressToIdentity s' p = 0" and "c \<noteq> ApproveRecovery 0"
  shows "\<exists>d. c = ApproveRecovery d \<and> owner (identities s d) = p
            \<and> owner (identities s' d) \<noteq> p \<and> pendingRecoveryAddress s' d = 0"
proof (cases c)
  case (CreateIdentity h ipfs)
  then show ?thesis using assms(1,2,3)
    by (auto simp: createIdentity_def Let_def split: if_splits)
next
  case (UpdateIdentity did ipfs)
  then show ?thesis using assms(1,2,3)
    by (auto simp: updateIdentity_def split: if_splits)
next
  case (AddVerification did vt pr)
  then show ?thesis using assms(1,2,3)
    by (auto simp: addVerification_def Let_def split: if_splits)
next
  case (RevokeVerification did idx)
  then show ?thesis using assms(1,2,3)
    by (auto simp: revokeVerification_def split: if_splits)
next
  case (RevokeIdentity did)
  then show ?thesis using assms(1,2,3)
    by (auto simp: revokeIdentity_def split: if_splits)
next
  case (AddGuardian did g)
  then show ?thesis using assms(1,2,3)
    by (auto simp: addGuardian_def split: if_splits)
next
  case (InitiateRecovery did newOwner)
  then show ?thesis using assms(1,2,3)
    by (auto simp: initiateRecovery_def split: if_splits)
next
  case (ApproveRecovery did)
  then show ?thesis using assms
    by (auto simp: approveRecovery_def executeRecovery_def Let_def split: if_splits)
next
  case PauseCall
  then show ?thesis using assms(1,2,3)
    by (auto simp: pause_def split: if_splits)
next
  case UnpauseCall
  then show ?thesis using assms(1,2,3)
    by (auto simp: unpause_def split: if_splits)
next
  case (GrantRole r a)
  then show ?thesis using assms(1,2,3)
    by (auto simp: grantRole_def split: if_splits)
next
  case (RevokeRole r a)
  then show ?thesis using assms(1,2,3)
    by (auto simp: revokeRole_def split: if_splits)
next
  case (RenounceRole r a)
  then show ?thesis using assms(1,2,3)
    by (auto simp: renounceRole_def split: if_splits)
qed

lemma binding_apply:
  assumes "addressToIdentity s p \<noteq> 0" and "\<not> transfersAway kec p s tx"
    and "snd tx \<noteq> ApproveRecovery 0"
  shows "addressToIdentity (apply_tx kec s tx) p \<noteq> 0"
proof (cases tx)
  case (Pair m c)
  show ?thesis
  proof (cases "exec kec m c s")
    case (Inl e)
    then show ?thesis using Pair assms(1) by simp
  next
    case (Inr s')
    show ?thesis
    proof
      assume z: "addressToIdentity (apply_tx kec s tx) p = 0"
      then have "addressToIdentity s' p = 0" using Pair Inr by simp
      then obtain d where d: "c = ApproveRecovery d" "owner (identities s d) = p"
          "owner (identities s' d) \<noteq> p"
        using binding_step [OF Inr assms(1)] assms(3) Pair by auto
      then have "transfersAway kec p s tx" using Pair Inr by simp
      then show False using assms(2) by simp
    qed
  qed
qed

lemma binding_run:
  "addressToIdentity s p \<noteq> 0 \<Longrightarrow> \<not> recoveredFrom kec p txs s \<Longrightarrow>
   \<forall>m. (m, ApproveRecovery 0) \<notin> set txs \<Longrightarrow>
   addressToIdentity (run kec txs s) p \<noteq> 0"
proof (induction txs arbitrary: s)
  case Nil
  then show ?case by simp
next
  case (Cons tx txs)
  have "snd tx \<noteq> ApproveRecovery 0"
    using Cons.prems(3) by (cases tx) auto
  then have "addressToIdentity (apply_tx kec s tx) p \<noteq> 0"
    using Cons.prems(1,2) binding_apply by simp
  then show ?case using Cons.IH Cons.prems(2,3) by simp
qed

text \<open>
  C10 as worded does not hold: a principal who has revoked an identity and submits the
  same identity hash again is rejected by the check of the hash, which comes first, not
  by the check of the binding.
\<close>

theorem rebind_error_counterexample:
  "addressToIdentity revokedRegistry 17 = 161
   \<and> \<not> verifyOwnership revokedRegistry 161 17
   \<and> createIdentity exampleDidHash (ctx 17 102) 161 ''QmA'' revokedRegistry
        = Inl (Require ''Identity already exists'')
   \<and> createIdentity exampleDidHash (ctx 17 102) 161 ''QmA'' revokedRegistry
        \<noteq> Inl (Require ''Address already has identity'')"
  by (simp add: revokedRegistry_def revokedTxs_def registry_defs verifyOwnership_def Let_def)

text \<open>
  C10, amended. A successful \<open>revokeIdentity\<close> leaves every binding from a principal
  to an identifier as it was, so a principal whose binding was set before the revocation
  has it set afterwards. While the binding of a principal is set, every \<open>createIdentity\<close>
  of that principal fails: with the error of the binding check whenever the contract is
  not paused and the identity hash is unused, and with the error of the earlier check
  otherwise. A binding that is set stays set along every execution in which no recovery
  moves an identity away from the principal; the only transaction that clears a binding
  is an \<open>approveRecovery\<close> that completes a recovery of an identity owned by the
  principal to a different owner. (Identifier 0 is the value of an unset binding; a
  recovery of identifier 0 is left aside.) Owning an identity does not by itself mean
  that the binding is set: \<open>unbound_owner_example\<close> below is an execution after which
  a principal revokes an identity it owns and then creates another one.
\<close>

theorem binding_survives_revocation:
  "(revokeIdentity m did s = Inr s' \<longrightarrow> addressToIdentity s' = addressToIdentity s)
   \<and> (revokeIdentity m did s = Inr s' \<and> addressToIdentity s p \<noteq> 0
        \<and> \<not> recoveredFrom kec p txs s' \<and> (\<forall>m. (m, ApproveRecovery 0) \<notin> set txs) \<longrightarrow>
         addressToIdentity (run kec txs s') p \<noteq> 0
         \<and> (\<exists>e. createIdentity kec (ctx p t) h ipfs (run kec txs s') = Inl e)
         \<and> (\<not> paused (run kec txs s') \<and> \<not> identityHashExists (run kec txs s') h \<longrightarrow>
              createIdentity kec (ctx p t) h ipfs (run kec txs s')
                = Inl (Require ''Address already has identity''))
         \<and> (paused (run kec txs s') \<longrightarrow>
              createIdentity kec (ctx p t) h ipfs (run kec txs s') = Inl EnforcedPause)
         \<and> (\<not> paused (run kec txs s') \<and> identityHashExists (run kec txs s') h \<longrightarrow>
              createIdentity kec (ctx p t) h ipfs (run kec txs s')
                = Inl (Require ''Identity already exists'')))
   \<and> (addressToIdentity s2 p \<noteq> 0 \<and> \<not> recoveredFrom kec p txs s2
        \<and> (\<forall>m. (m, ApproveRecovery 0) \<notin> set txs) \<longrightarrow>
         addressToIdentity (run kec txs s2) p \<noteq> 0
         \<and> (\<exists>e. createIdentity kec (ctx p t) h ipfs (run kec txs s2) = Inl e)
         \<and> (\<not> paused (run kec txs s2) \<and> \<not> identityHashExists (run kec txs s2) h \<longrightarrow>
              createIdentity kec (ctx p t) h ipfs (run kec txs s2)
                = Inl (Require ''Address already has identity''))
         \<and> (paused (run kec txs s2) \<longrightarrow>
              createIdentity kec (ctx p t) h ipfs (run kec txs s2) = Inl EnforcedPause)
         \<and> (\<not> paused (run kec txs s2) \<and> identityHashExists (run kec txs s2) h \<longrightarrow>
              createIdentity kec (ctx p t) h ipfs (run kec txs s2)
                = Inl (Require ''Identity already exists'')))
   \<and> (exec kec m3 c s3 = Inr s3' \<and> addressToIdentity s3 p \<noteq> 0
        \<and> addressToIdentity s3' p = 0 \<and> c \<noteq> ApproveRecovery 0 \<longrightarrow>
         (\<exists>d. c = ApproveRecovery d \<and> owner (identities s3 d) = p
               \<and> owner (identities s3' d) \<noteq> p \<and> pendingRecoveryAddress s3' d = 0))"
proof -
  have a: "revokeIdentity m did s = Inr s' \<Longrightarrow> addressToIdentity s' = addressToIdentity s"
    by (auto simp: revokeIdentity_def split: if_splits)
  have b: "\<And>r. addressToIdentity r p \<noteq> 0 \<Longrightarrow>
      (\<exists>e. createIdentity kec (ctx p t) h ipfs r = Inl e)
      \<and> (\<not> paused r \<and> \<not> identityHashExists r h \<longrightarrow>
            createIdentity kec (ctx p t) h ipfs r = Inl (Require ''Address already has identity''))
      \<and> (paused r \<longrightarrow> createIdentity kec (ctx p t) h ipfs r = Inl EnforcedPause)
      \<and> (\<not> paused r \<and> identityHashExists r h \<longrightarrow>
            createIdentity kec (ctx p t) h ipfs r = Inl (Require ''Identity already exists''))"
    by (simp add: createIdentity_def ctx_def)
  have c: "revokeIdentity m did s = Inr s' \<Longrightarrow> addressToIdentity s p \<noteq> 0 \<Longrightarrow>
      \<not> recoveredFrom kec p txs s' \<Longrightarrow> \<forall>m. (m, ApproveRecovery 0) \<notin> set txs \<Longrightarrow>
      addressToIdentity (run kec txs s') p \<noteq> 0"
    using a binding_run [of s' p kec txs] by simp
  have d: "addressToIdentity s2 p \<noteq> 0 \<Longrightarrow> \<not> recoveredFrom kec p txs s2 \<Longrightarrow>
      \<forall>m. (m, ApproveRecovery 0) \<notin> set txs \<Longrightarrow> addressToIdentity (run kec txs s2) p \<noteq> 0"
    by (rule binding_run)
  have e: "exec kec m3 c s3 = Inr s3' \<Longrightarrow> addressToIdentity s3 p \<noteq> 0 \<Longrightarrow>
      addressToIdentity s3' p = 0 \<Longrightarrow> c \<noteq> ApproveRecovery 0 \<Longrightarrow>
      \<exists>d. c = ApproveRecovery d \<and> owner (identities s3 d) = p
            \<and> owner (identities s3' d) \<noteq> p \<and> pendingRecoveryAddress s3' d = 0"
    by (rule binding_step)
  show ?thesis
    using a b [of "run kec txs s'"] b [of "run kec txs s2"] c d e
    by blast
qed

theorem binding_survives_revocation_witness:
  "(\<exists>s'. revokeIdentity (ctx 17 103) 161 recoveryPending = Inr s'
          \<and> addressToIdentity recoveryPending 17 = 161
          \<and> addressToIdentity s' 17 = 161
          \<and> (\<exists>e. createIdentity exampleDidHash (ctx 17 105) 163 ''QmC''
                 (run exampleDidHash [(ctx 18 104, CreateIdentity 162 ''QmB'')] s') = Inl e))
   \<and> addressToIdentity revokedRegistry 17 \<noteq> 0
   \<and> createIdentity exampleDidHash (ctx 17 105) 163 ''QmC''
        (run exampleDidHash [(ctx 18 104, CreateIdentity 162 ''QmB'')] revokedRegistry)
        = Inl (Require ''Address already has identity'')
   \<and> createIdentity exampleDidHash (ctx 17 105) 161 ''QmC'' (run exampleDidHash [] revokedRegistry)
        = Inl (Require ''Identity already exists'')
   \<and> createIdentity exampleDidHash (ctx 17 105) 163 ''QmC'' (run exampleDidHash [] pausedRegistry)
        = Inl EnforcedPause
   \<and> (\<exists>s'. exec exampleDidHash (ctx 34 104) (ApproveRecovery 161) recoveryPending = Inr s'
          \<and> addressToIdentity recoveryPending 17 \<noteq> 0 \<and> addressToIdentity s' 17 = 0
          \<and> owner (identities recoveryPending 161) = 17 \<and> owner (identities s' 161) \<noteq> 17)"
proof -
  let ?txs = "[(ctx 18 104, CreateIdentity 162 ''QmB'')]"
  have x1: "addressToIdentity revokedRegistry 17 \<noteq> 0
      \<and> \<not> paused (run exampleDidHash [] revokedRegistry)
      \<and> identityHashExists (run exampleDidHash [] revokedRegistry) 161"
    by (simp add: revokedRegistry_def revokedTxs_def registry_defs Let_def)
  have t4: "createIdentity exampleDidHash (ctx 17 105) 161 ''QmC''
        (run exampleDidHash [] revokedRegistry) = Inl (Require ''Identity already exists'')"
    using binding_survives_revocation
      [where ?s2.0 = revokedRegistry and p = 17 and kec = exampleDidHash and txs = "[]"
         and t = 105 and h = 161 and ipfs = "''QmC''"] x1
    by simp
  have x2: "addressToIdentity pausedRegistry 17 \<noteq> 0
      \<and> paused (run exampleDidHash [] pausedRegistry)"
    by (simp add: pausedRegistry_def pausedTxs_def registry_defs Let_def)
  have t5: "createIdentity exampleDidHash (ctx 17 105) 163 ''QmC''
        (run exampleDidHash [] pausedRegistry) = Inl EnforcedPause"
    using binding_survives_revocation
      [where ?s2.0 = pausedRegistry and p = 17 and kec = exampleDidHash and txs = "[]"
         and t = 105 and h = 163 and ipfs = "''QmC''"] x2
    by simp
  obtain r where r: "revokeIdentity (ctx 17 103) 161 recoveryPending = Inr r"
    by (simp add: recoveryPending_def recoveryTxs_def registry_defs Let_def)
  have b0: "addressToIdentity recoveryPending 17 = 161"
    by (simp add: recoveryPending_def recoveryTxs_def registry_defs Let_def)
  have t1: "addressToIdentity r 17 = 161"
    using binding_survives_revocation
      [where m = "ctx 17 103" and did = 161 and s = recoveryPending and s' = r] r b0
    by simp
  have n: "\<forall>m. (m, ApproveRecovery 0) \<notin> set ?txs"
    by simp
  have nr: "\<not> recoveredFrom exampleDidHash 17 ?txs r"
    by simp
  have t0: "\<exists>e. createIdentity exampleDidHash (ctx 17 105) 163 ''QmC''
                 (run exampleDidHash ?txs r) = Inl e"
    using binding_survives_revocation
      [where m = "ctx 17 103" and did = 161 and s = recoveryPending and s' = r and p = 17
         and kec = exampleDidHash and txs = ?txs and t = 105 and h = 163 and ipfs = "''QmC''"]
      r b0 nr n
    by simp
  have b1: "addressToIdentity revokedRegistry 17 \<noteq> 0"
    by (simp add: revokedRegistry_def revokedTxs_def registry_defs Let_def)
  have b2: "\<not> recoveredFrom exampleDidHash 17 ?txs revokedRegistry"
    by simp
  have b3: "\<not> paused (run exampleDidHash ?txs revokedRegistry)
      \<and> \<not> identityHashExists (run exampleDidHash ?txs revokedRegistry) 163"
    by (simp add: revokedRegistry_def revokedTxs_def registry_defs Let_def)
  have t2: "createIdentity exampleDidHash (ctx 17 105) 163 ''QmC''
        (run exampleDidHash ?txs revokedRegistry) = Inl (Require ''Address already has identity'')"
    using binding_survives_revocation
      [where ?s2.0 = revokedRegistry and p = 17 and kec = exampleDidHash and txs = ?txs
         and t = 105 and h = 163 and ipfs = "''QmC''"] b1 b2 b3 n
    by blast
  obtain e where e: "exec exampleDidHash (ctx 34 104) (ApproveRecovery 161) recoveryPending = Inr e"
      and e0: "addressToIdentity e 17 = 0"
    by (simp add: recoveryPending_def recoveryTxs_def registry_defs Let_def)
  have ne: "ApproveRecovery 161 \<noteq> ApproveRecovery 0" by simp
  have t3: "owner (identities recoveryPending 161) = 17 \<and> owner (identities e 161) \<noteq> 17"
    using binding_survives_revocation
      [where ?m3.0 = "ctx 34 104" and c = "ApproveRecovery 161" and ?s3.0 = recoveryPending
         and ?s3'.0 = e and p = 17 and kec = exampleDidHash] e e0 b0 ne
    by auto
  show ?thesis using r t0 t1 b1 t2 t4 t5 e e0 b0 t3 by auto
qed

text \<open>
  The binding of an owner can be unset: principal 18 owns identity 162, its binding was
  deleted when identity 161 was recovered away from it, it has revoked identity 162, and
  its next \<open>createIdentity\<close> is accepted.
\<close>

lemma unbound_owner_example:
  "owner (identities unboundOwner 162) = 18
   \<and> isRevoked (identities unboundOwner 162)
   \<and> owner (identities unboundOwner 161) = 19
   \<and> addressToIdentity unboundOwner 18 = 0
   \<and> (\<exists>r. createIdentity exampleDidHash (ctx 18 108) 163 ''QmC'' unboundOwner = Inr (163, r))"
  by (simp add: unboundOwner_def dualOwner_def dualOwnerTxs_def registry_defs Let_def)

subsection \<open>The verification level\<close>

lemma maxVerificationType_snoc:
  "maxVerificationType (vs @ [v]) = max (maxVerificationType vs) (ucast (verificationType v))"
  by (induction vs) (auto simp: max_def)

lemma maxVerificationType_invalidate:
  "maxVerificationType (vs[i := (vs ! i)\<lparr> isValid := False \<rparr>]) = maxVerificationType vs"
proof (induction vs arbitrary: i)
  case Nil
  then show ?case by simp
next
  case (Cons v vs)
  then show ?case by (cases i) simp_all
qed

lemma maxVerificationType_filter:
  "maxVerificationType (filter P vs) \<le> maxVerificationType vs"
  by (induction vs) (auto simp: max_def)

lemma levelsTracked_constructor: "levelsTracked {} (constructor d)"
  by (simp add: levelsTracked_def constructor_def zeroIdentity_def)

lemma levelsTracked_create:
  assumes "levelsTracked C s" and "createIdentity kec m h ipfs s = Inr (did, s')" and "did \<notin> C"
  shows "levelsTracked (insert did C) s'"
proof -
  from assms(2) have v: "verifications s' = verifications s"
    and i: "identities s' = (identities s)(did := \<lparr>
                       identityHash = h, owner = msg_sender m,
                       createdAt = block_timestamp m, lastUpdated = block_timestamp m,
                       isActive = True, isRevoked = False, ipfsHash = ipfs,
                       verificationLevel = 0 \<rparr>)"
    by (auto simp: createIdentity_def Let_def split: if_splits)
  from assms(1,3) have e: "verifications s did = []" by (simp add: levelsTracked_def)
  show ?thesis using assms(1) e by (auto simp: levelsTracked_def v i)
qed

lemma levelsTracked_add:
  assumes "levelsTracked C s" and "addVerification m did vt pr s = Inr s'"
  shows "levelsTracked C s'"
proof -
  let ?v = "\<lparr> verifier = msg_sender m, timestamp = block_timestamp m,
              verificationType = vt, proofHash = pr, isValid = True \<rparr>"
  from assms(2) have act: "isActive (identities s did)"
    and v: "verifications s' = (verifications s)(did := verifications s did @ [?v])"
    and i: "identities s' = (identities s)(did := (identities s did)\<lparr> verificationLevel :=
               max (verificationLevel (identities s did)) (ucast vt) \<rparr>)"
    by (auto simp: addVerification_def Let_def max_def fun_eq_iff split: if_splits)
  from assms(1) act have c: "did \<in> C" by (auto simp: levelsTracked_def)
  show ?thesis using assms(1) c
    by (auto simp: levelsTracked_def v i maxVerificationType_snoc)
qed

lemma levelsTracked_revokeVerification:
  assumes "levelsTracked C s" and "revokeVerification m did idx s = Inr s'"
  shows "levelsTracked C s'"
proof -
  from assms(2) have i: "identities s' = identities s"
    and v: "verifications s' = (verifications s)(did :=
                  (verifications s did)[unat idx :=
                     (verifications s did ! unat idx)\<lparr> isValid := False \<rparr>])"
    by (auto simp: revokeVerification_def split: if_splits)
  show ?thesis using assms(1)
    by (auto simp: levelsTracked_def v i maxVerificationType_invalidate)
qed

lemma levelsTracked_same:
  assumes "levelsTracked C s" and "verifications s' = verifications s"
    and "\<forall>did. verificationLevel (identities s' did) = verificationLevel (identities s did)"
    and "\<forall>did. isActive (identities s' did) \<longrightarrow> isActive (identities s did)"
  shows "levelsTracked C s'"
  using assms by (auto simp: levelsTracked_def)

lemma level_frame:
  assumes "exec kec m c s = Inr s'"
    and "\<forall>h ipfs. c \<noteq> CreateIdentity h ipfs"
    and "\<forall>did vt pr. c \<noteq> AddVerification did vt pr"
    and "\<forall>did idx. c \<noteq> RevokeVerification did idx"
  shows "verifications s' = verifications s
       \<and> (\<forall>did. verificationLevel (identities s' did) = verificationLevel (identities s did))
       \<and> (\<forall>did. isActive (identities s' did) \<longrightarrow> isActive (identities s did))"
proof (cases c)
  case (UpdateIdentity did ipfs)
  then show ?thesis using assms(1)
    by (auto simp: updateIdentity_def split: if_splits)
next
  case (RevokeIdentity did)
  then show ?thesis using assms(1)
    by (auto simp: revokeIdentity_def split: if_splits)
next
  case (AddGuardian did g)
  then show ?thesis using assms(1)
    by (auto simp: addGuardian_def split: if_splits)
next
  case (InitiateRecovery did newOwner)
  then show ?thesis using assms(1)
    by (auto simp: initiateRecovery_def split: if_splits)
next
  case (ApproveRecovery did)
  then show ?thesis using assms(1)
    by (auto simp: approveRecovery_def executeRecovery_def Let_def split: if_splits)
next
  case PauseCall
  then show ?thesis using assms(1)
    by (auto simp: pause_def split: if_splits)
next
  case UnpauseCall
  then show ?thesis using assms(1)
    by (auto simp: unpause_def split: if_splits)
next
  case (GrantRole r a)
  then show ?thesis using assms(1)
    by (auto simp: grantRole_def split: if_splits)
next
  case (RevokeRole r a)
  then show ?thesis using assms(1)
    by (auto simp: revokeRole_def split: if_splits)
next
  case (RenounceRole r a)
  then show ?thesis using assms(1)
    by (auto simp: renounceRole_def split: if_splits)
next
  case (CreateIdentity h ipfs)
  then show ?thesis using assms(2) by simp
next
  case (AddVerification did vt pr)
  then show ?thesis using assms(3) by simp
next
  case (RevokeVerification did idx)
  then show ?thesis using assms(4) by simp
qed

lemma levelsTracked_mono: "levelsTracked C s \<Longrightarrow> C \<subseteq> D \<Longrightarrow> levelsTracked D s"
  by (auto simp: levelsTracked_def)

lemma levelsTracked_apply_tx:
  assumes "levelsTracked C s" and "set (createdDid kec s tx) \<inter> C = {}"
  shows "levelsTracked (C \<union> set (createdDid kec s tx)) (apply_tx kec s tx)"
proof (cases tx)
  case (Pair m c)
  show ?thesis
  proof (cases c)
    case (CreateIdentity h ipfs)
    show ?thesis
    proof (cases "createIdentity kec m h ipfs s")
      case (Inl e)
      then show ?thesis using Pair CreateIdentity assms(1) by simp
    next
      case (Inr r)
      obtain did s' where r: "r = (did, s')" by (cases r)
      have "did \<notin> C" using assms(2) Pair CreateIdentity Inr r by simp
      then have "levelsTracked (insert did C) s'"
        using levelsTracked_create [OF assms(1)] Inr r by simp
      then show ?thesis using Pair CreateIdentity Inr r by simp
    qed
  next
    case (AddVerification did vt pr)
    then show ?thesis using Pair assms(1) levelsTracked_add [OF assms(1)]
      by (auto split: sum.splits)
  next
    case (RevokeVerification did idx)
    then show ?thesis using Pair assms(1) levelsTracked_revokeVerification [OF assms(1)]
      by (auto split: sum.splits)
  next
    case (UpdateIdentity did ipfs)
    then show ?thesis using Pair assms(1) level_frame [of kec m c s] levelsTracked_same [OF assms(1)]
      by (auto split: sum.splits)
  next
    case (RevokeIdentity did)
    then show ?thesis using Pair assms(1) level_frame [of kec m c s] levelsTracked_same [OF assms(1)]
      by (auto split: sum.splits)
  next
    case (AddGuardian did g)
    then show ?thesis using Pair assms(1) level_frame [of kec m c s] levelsTracked_same [OF assms(1)]
      by (auto split: sum.splits)
  next
    case (InitiateRecovery did newOwner)
    then show ?thesis using Pair assms(1) level_frame [of kec m c s] levelsTracked_same [OF assms(1)]
      by (auto split: sum.splits)
  next
    case (ApproveRecovery did)
    then show ?thesis using Pair assms(1) level_frame [of kec m c s] levelsTracked_same [OF assms(1)]
      by (auto split: sum.splits)
  next
    case PauseCall
    then show ?thesis using Pair assms(1) level_frame [of kec m c s] levelsTracked_same [OF assms(1)]
      by (auto split: sum.splits)
  next
    case UnpauseCall
    then show ?thesis using Pair assms(1) level_frame [of kec m c s] levelsTracked_same [OF assms(1)]
      by (auto split: sum.splits)
  next
    case (GrantRole r a)
    then show ?thesis using Pair assms(1) level_frame [of kec m c s] levelsTracked_same [OF assms(1)]
      by (auto split: sum.splits)
  next
    case (RevokeRole r a)
    then show ?thesis using Pair assms(1) level_frame [of kec m c s] levelsTracked_same [OF assms(1)]
      by (auto split: sum.splits)
  next
    case (RenounceRole r a)
    then show ?thesis using Pair assms(1) level_frame [of kec m c s] levelsTracked_same [OF assms(1)]
      by (auto split: sum.splits)
  qed
qed

lemma levelsTracked_run:
  "levelsTracked C s \<Longrightarrow> distinct (createdDids kec txs s) \<Longrightarrow>
   set (createdDids kec txs s) \<inter> C = {} \<Longrightarrow>
   levelsTracked (C \<union> set (createdDids kec txs s)) (run kec txs s)"
proof (induction txs arbitrary: s C)
  case Nil
  then show ?case by simp
next
  case (Cons tx txs)
  let ?n = "createdDid kec s tx" and ?s1 = "apply_tx kec s tx"
  have d: "distinct (createdDids kec txs ?s1)"
    and x: "set ?n \<inter> set (createdDids kec txs ?s1) = {}"
    and y: "set ?n \<inter> C = {}" and z: "set (createdDids kec txs ?s1) \<inter> C = {}"
    using Cons.prems(2,3) by auto
  have "levelsTracked (C \<union> set ?n) ?s1"
    using Cons.prems(1) y by (rule levelsTracked_apply_tx)
  moreover have "set (createdDids kec txs ?s1) \<inter> (C \<union> set ?n) = {}"
    using x z by auto
  ultimately have "levelsTracked ((C \<union> set ?n) \<union> set (createdDids kec txs ?s1)) (run kec txs ?s1)"
    using d Cons.IH by simp
  then show ?case by (simp add: Un_assoc)
qed

text \<open>
  C3 as worded does not hold: after the only record of identity 161, of type 3, has been
  revoked, the level is still 3 while no valid record is left.
\<close>

theorem level_not_recomputed_counterexample:
  "verificationLevel (identities verificationRevoked 161) = 3
   \<and> spec_verificationLevel (verifications verificationRevoked 161) = 0
   \<and> length (verifications verificationRevoked 161) = 1
   \<and> \<not> isValid (verifications verificationRevoked 161 ! 0)"
  by (simp add: verificationRevoked_def verified_def verificationTxs_def registry_defs
        spec_verificationLevel_def Let_def)

text \<open>
  C3, amended. In every state reached by an execution in which no two \<open>createIdentity\<close>
  calls returned the same identifier, the level of every identity is the greatest
  \<open>verificationType\<close> over all its records, valid or not (0 without records); it is
  therefore at least the greatest type over the valid records. \<open>revokeVerification\<close>
  sets \<open>isValid\<close> of the record to false and leaves the level as it was.
\<close>

theorem verificationLevel_is_historical_max:
  "(distinct (createdDids kec txs (constructor deployer)) \<longrightarrow>
      verificationLevel (identities (run kec txs (constructor deployer)) did)
        = maxVerificationType (verifications (run kec txs (constructor deployer)) did)
      \<and> spec_verificationLevel (verifications (run kec txs (constructor deployer)) did)
          \<le> verificationLevel (identities (run kec txs (constructor deployer)) did))
   \<and> (revokeVerification m did2 idx s = Inr s' \<longrightarrow>
        verificationLevel (identities s' did2) = verificationLevel (identities s did2)
        \<and> \<not> isValid (verifications s' did2 ! unat idx))"
proof -
  have a: "distinct (createdDids kec txs (constructor deployer)) \<Longrightarrow>
      verificationLevel (identities (run kec txs (constructor deployer)) did)
        = maxVerificationType (verifications (run kec txs (constructor deployer)) did)"
    using levelsTracked_run [OF levelsTracked_constructor, of kec txs deployer]
    by (simp add: levelsTracked_def)
  have b: "revokeVerification m did2 idx s = Inr s' \<Longrightarrow>
        verificationLevel (identities s' did2) = verificationLevel (identities s did2)
        \<and> \<not> isValid (verifications s' did2 ! unat idx)"
    by (auto simp: revokeVerification_def split: if_splits)
  show ?thesis
    using a b maxVerificationType_filter
      [of isValid "verifications (run kec txs (constructor deployer)) did"]
    by (auto simp: spec_verificationLevel_def)
qed

theorem verificationLevel_is_historical_max_witness:
  "distinct (createdDids exampleDidHash (verificationTxs @ [(ctx 2 102, RevokeVerification 161 0)])
       (constructor 1))
   \<and> verificationLevel (identities
        (run exampleDidHash (verificationTxs @ [(ctx 2 102, RevokeVerification 161 0)])
           (constructor 1)) 161) = 3
   \<and> (\<exists>s'. revokeVerification (ctx 2 102) 161 0 verified = Inr s'
         \<and> verificationLevel (identities s' 161) = 3)"
proof -
  let ?txs = "verificationTxs @ [(ctx 2 102, RevokeVerification 161 0)]"
  have d: "distinct (createdDids exampleDidHash ?txs (constructor 1))"
    by (simp add: verificationTxs_def registry_defs Let_def)
  have v: "map verificationType (verifications (run exampleDidHash ?txs (constructor 1)) 161) = [3]"
    by (simp add: verificationTxs_def registry_defs Let_def)
  then obtain x where x: "verifications (run exampleDidHash ?txs (constructor 1)) 161 = [x]"
      and x3: "verificationType x = 3"
    by auto
  have t1: "verificationLevel (identities (run exampleDidHash ?txs (constructor 1)) 161) = 3"
    using verificationLevel_is_historical_max [of exampleDidHash ?txs 1 161] d x x3
    by simp
  obtain r where r: "revokeVerification (ctx 2 102) 161 0 verified = Inr r"
    by (simp add: verified_def verificationTxs_def registry_defs Let_def)
  have l: "verificationLevel (identities verified 161) = 3"
    by (simp add: verified_def verificationTxs_def registry_defs Let_def)
  have t2: "verificationLevel (identities r 161) = 3"
    using verificationLevel_is_historical_max
      [where m = "ctx 2 102" and ?did2.0 = 161 and idx = 0 and s = verified and s' = r] r l
    by simp
  show ?thesis using d t1 r t2 by blast
qed

subsection \<open>One identity per principal\<close>

text \<open>
  C4 on the execution \<open>dualOwnerTxs\<close>: principal 18 owns identity 162 and is then made
  owner of identity 161 by a recovery, which does not check the binding of the proposed
  owner as \<open>createIdentity\<close> does for its caller. In the resulting state principal 18
  is the owner of two distinct active identities, while \<open>createIdentity\<close> still rejects
  the same principal as already bound.
\<close>

theorem recovery_to_bound_principal:
  "verifyOwnership dualOwner 161 18
   \<and> verifyOwnership dualOwner 162 18
   \<and> (161 :: bytes32) \<noteq> 162
   \<and> addressToIdentity dualOwner 18 = 161
   \<and> createdDids exampleDidHash dualOwnerTxs (constructor 1) = [161, 162]
   \<and> createIdentity exampleDidHash (ctx 18 105) 163 ''QmC'' dualOwner
        = Inl (Require ''Address already has identity'')"
  by (simp add: dualOwner_def dualOwnerTxs_def registry_defs verifyOwnership_def Let_def)

end
